theory Spec2Isabelle
  imports Complex_Main
begin

section \<open>hdf5-iotest: the driver of the parallel I/O test (hdf5\_iotest.c)\<close>

text \<open>
  The development follows \<^verbatim>\<open>main\<close> and \<^verbatim>\<open>set_libver_bounds\<close> of
  \<^verbatim>\<open>src/hdf5_iotest.c\<close>. Counts, sizes and MPI ranks are natural numbers: the only
  integer operations of the two functions are divisions and remainders, which cannot
  overflow, and the products are taken in \<^verbatim>\<open>double\<close>. A \<^verbatim>\<open>double\<close> is the real
  number it denotes (rounding is not modelled: the statements below are about which
  quantities are combined, not about their last bit). A C string is the list of its
  characters before the terminating NUL. The ways in which the modelled parts end a
  process (an integer division by zero, a failed assertion, an early return) are
  values of type \<open>error\<close>; the calls into the MPI and HDF5 libraries and into
  \<^verbatim>\<open>write_test\<close> and \<^verbatim>\<open>read_test\<close> are not looked into, their results are inputs.
\<close>

subsection \<open>Errors\<close>

datatype error =
    Division_by_zero
  | Assertion_failed string
  | Returned nat

subsection \<open>The configuration record\<close>

text \<open>
  Modelled from the spec: the declaration of \<^verbatim>\<open>configuration\<close> (dataset.h) is not
  among the sources. The fields are the ones that \<^verbatim>\<open>main\<close> and
  \<^verbatim>\<open>set_libver_bounds\<close> read; the numeric ones are counts and extents, the others
  are the fixed-size character buffers holding the string settings.
\<close>

record configuration =
  steps :: nat
  arrays :: nat
  rows :: nat
  cols :: nat
  scaling :: string
  proc_rows :: nat
  proc_cols :: nat
  slowest_dimension :: string
  rank :: nat
  alignment_increment :: nat
  alignment_threshold :: nat
  layout :: string
  fill_values :: string
  mpi_io :: string
  libver_bound_low :: string
  libver_bound_high :: string
  hdf5_file :: string
  csv_file :: string

subsection \<open>String comparison\<close>

text \<open>
  \<^verbatim>\<open>strncmp(a, b, n)\<close> compares at most \<open>n\<close> characters and stops at the end of
  either string (the lists are the characters before the NUL, so they hold none). The C standard fixes only the sign of the result; the model returns
  \<open>-1\<close>, \<open>0\<close> or \<open>1\<close>.
\<close>

fun strncmp :: "string \<Rightarrow> string \<Rightarrow> nat \<Rightarrow> int" where
  "strncmp a b 0 = 0"
| "strncmp [] [] (Suc n) = 0"
| "strncmp [] (y # ys) (Suc n) = - 1"
| "strncmp (x # xs) [] (Suc n) = 1"
| "strncmp (x # xs) (y # ys) (Suc n) =
     (if x = y then strncmp xs ys n
      else if (of_char x :: nat) < of_char y then - 1 else 1)"

subsection \<open>Process grid and local extent (lines 72--77)\<close>

text \<open>
  \<^verbatim>\<open>my_proc_row = rank / config.proc_cols; my_proc_col = rank % config.proc_cols;\<close>
  Both operations trap when \<^verbatim>\<open>proc_cols\<close> is zero.
\<close>

definition my_proc_row :: "nat \<Rightarrow> configuration \<Rightarrow> error + nat" where
  "my_proc_row mpi_rank config =
     (if proc_cols config = 0 then Inl Division_by_zero
      else Inr (mpi_rank div proc_cols config))"

definition my_proc_col :: "nat \<Rightarrow> configuration \<Rightarrow> error + nat" where
  "my_proc_col mpi_rank config =
     (if proc_cols config = 0 then Inl Division_by_zero
      else Inr (mpi_rank mod proc_cols config))"

definition grid_coordinate :: "nat \<Rightarrow> configuration \<Rightarrow> error + (nat \<times> nat)" where
  "grid_coordinate mpi_rank config =
     (case my_proc_row mpi_rank config of
        Inl e \<Rightarrow> Inl e
      | Inr r \<Rightarrow> (case my_proc_col mpi_rank config of
                   Inl e \<Rightarrow> Inl e
                 | Inr c \<Rightarrow> Inr (r, c)))"

text \<open>
  \<^verbatim>\<open>strong_scaling_flg = (strncmp(config.scaling, "strong", 16) == 0);\<close>
\<close>

definition strong_scaling_flg :: "configuration \<Rightarrow> bool" where
  "strong_scaling_flg config = (strncmp (scaling config) ''strong'' 16 = 0)"

text \<open>
  \<^verbatim>\<open>my_rows = strong_scaling_flg ? config.rows/config.proc_rows : config.rows;\<close>
  and the same for the columns. The division is evaluated only under strong scaling.
\<close>

definition my_rows :: "configuration \<Rightarrow> error + nat" where
  "my_rows config =
     (if strong_scaling_flg config
      then (if proc_rows config = 0 then Inl Division_by_zero
            else Inr (rows config div proc_rows config))
      else Inr (rows config))"

definition my_cols :: "configuration \<Rightarrow> error + nat" where
  "my_cols config =
     (if strong_scaling_flg config
      then (if proc_cols config = 0 then Inl Division_by_zero
            else Inr (cols config div proc_cols config))
      else Inr (cols config))"

definition local_extent :: "configuration \<Rightarrow> error + (nat \<times> nat)" where
  "local_extent config =
     (case my_rows config of
        Inl e \<Rightarrow> Inl e
      | Inr r \<Rightarrow> (case my_cols config of
                   Inl e \<Rightarrow> Inl e
                 | Inr c \<Rightarrow> Inr (r, c)))"

subsection \<open>Transfer mode (lines 80--84)\<close>

datatype H5FD_mpio_xfer_t = H5FD_MPIO_INDEPENDENT | H5FD_MPIO_COLLECTIVE

definition coll_mpi_io_flg :: "configuration \<Rightarrow> bool" where
  "coll_mpi_io_flg config = (strncmp (mpi_io config) ''collective'' 16 = 0)"

definition dxpl_mpio :: "configuration \<Rightarrow> H5FD_mpio_xfer_t" where
  "dxpl_mpio config =
     (if coll_mpi_io_flg config then H5FD_MPIO_COLLECTIVE else H5FD_MPIO_INDEPENDENT)"

subsection \<open>Timing records and their reduction (lines 138--163)\<close>

text \<open>
  Each process holds its own five elapsed times; they are produced by the clock
  (\<^verbatim>\<open>MPI_Wtime\<close>) and by \<^verbatim>\<open>write_test\<close> and \<^verbatim>\<open>read_test\<close>, and are
  inputs here.
\<close>

record timing =
  write_phase :: real
  create_time :: real
  write_time :: real
  read_phase :: real
  read_time :: real

datatype MPI_Op = MPI_MIN | MPI_MAX

fun reduce_op :: "MPI_Op \<Rightarrow> real \<Rightarrow> real \<Rightarrow> real" where
  "reduce_op MPI_MIN = min"
| "reduce_op MPI_MAX = max"

text \<open>
  \<^verbatim>\<open>MPI_Reduce(&x, &result, 1, MPI_DOUBLE, op, 0, MPI_COMM_WORLD)\<close> as seen on the
  root: \<open>sendbufs\<close> are the values of \<open>x\<close> of all processes in rank order,
  \<open>recvbuf\<close> is what the result variable held before the call.
\<close>

fun MPI_Reduce :: "real list \<Rightarrow> real \<Rightarrow> MPI_Op \<Rightarrow> real" where
  "MPI_Reduce [] recvbuf opr = recvbuf"
| "MPI_Reduce (x # xs) recvbuf opr = fold (reduce_op opr) xs x"

record statistics =
  min_write_phase :: real
  max_write_phase :: real
  min_create_time :: real
  max_create_time :: real
  min_write_time :: real
  max_write_time :: real
  min_read_phase :: real
  max_read_phase :: real
  min_read_time :: real
  max_read_time :: real

text \<open>The ten reductions of lines 144--163, after the initialisation to 0.0.\<close>

definition reduce_statistics :: "timing list \<Rightarrow> statistics" where
  "reduce_statistics ts =
     \<lparr> min_write_phase = MPI_Reduce (map write_phase ts) 0 MPI_MIN,
       max_write_phase = MPI_Reduce (map write_phase ts) 0 MPI_MAX,
       min_create_time = MPI_Reduce (map create_time ts) 0 MPI_MIN,
       max_create_time = MPI_Reduce (map create_time ts) 0 MPI_MAX,
       min_write_time = MPI_Reduce (map write_time ts) 0 MPI_MIN,
       max_write_time = MPI_Reduce (map write_time ts) 0 MPI_MAX,
       min_read_phase = MPI_Reduce (map read_phase ts) 0 MPI_MIN,
       max_read_phase = MPI_Reduce (map read_phase ts) 0 MPI_MAX,
       min_read_time = MPI_Reduce (map read_time ts) 0 MPI_MIN,
       max_read_time = MPI_Reduce (map read_time ts) 0 MPI_MAX \<rparr>"

subsection \<open>Throughput rates (lines 167--172)\<close>

text \<open>
  A floating-point division does not trap: a zero divisor gives an infinity or a NaN.
  The quotient type keeps these cases apart from the finite results.
\<close>

datatype quotient = Finite real | Plus_infinity | Minus_infinity | Not_a_number

definition double_div :: "real \<Rightarrow> real \<Rightarrow> quotient" where
  "double_div a b =
     (if b \<noteq> 0 then Finite (a / b)
      else if a = 0 then Not_a_number
      else if 0 < a then Plus_infinity else Minus_infinity)"

definition sizeof_double :: nat where
  "sizeof_double = 8"

text \<open>
  \<^verbatim>\<open>(double)config.steps*config.arrays*my_rows*my_cols*sizeof(double)\<close>:
  every factor is converted to \<^verbatim>\<open>double\<close> before it is multiplied.
\<close>

definition byte_count :: "configuration \<Rightarrow> nat \<Rightarrow> nat \<Rightarrow> real" where
  "byte_count config mr mc =
     real (steps config) * real (arrays config) * real mr * real mc * real sizeof_double"

record rates =
  min_write_rate :: quotient
  max_write_rate :: quotient
  min_read_rate :: quotient
  max_read_rate :: quotient

definition throughput :: "real \<Rightarrow> statistics \<Rightarrow> rates" where
  "throughput bc st =
     \<lparr> min_write_rate = double_div bc (1024 * 1024 * max_write_time st),
       max_write_rate = double_div bc (1024 * 1024 * min_write_time st),
       min_read_rate = double_div bc (1024 * 1024 * max_read_time st),
       max_read_rate = double_div bc (1024 * 1024 * min_read_time st) \<rparr>"

text \<open>
  What the coordinating process computes at lines 165--172 from the configuration
  and the timing records of all processes (in rank order): the byte count of its own
  local extent and the four rates. The local extent was computed at lines 76--77,
  where the division may have trapped.
\<close>

definition report_byte_count :: "configuration \<Rightarrow> error + real" where
  "report_byte_count config =
     (case local_extent config of
        Inl e \<Rightarrow> Inl e
      | Inr (mr, mc) \<Rightarrow> Inr (byte_count config mr mc))"

definition report_rates :: "configuration \<Rightarrow> timing list \<Rightarrow> error + rates" where
  "report_rates config ts =
     (case report_byte_count config of
        Inl e \<Rightarrow> Inl e
      | Inr bc \<Rightarrow> Inr (throughput bc (reduce_statistics ts)))"

subsection \<open>Formatted output\<close>

text \<open>
  The part of \<^verbatim>\<open>fprintf\<close> that the CSV file needs: literal characters and the
  conversions \<^verbatim>\<open>%d\<close>, \<^verbatim>\<open>%ld\<close>, \<^verbatim>\<open>%s\<close> and \<^verbatim>\<open>%.Nf\<close> with a one-digit
  precision. A format that is not understood, or an argument that does not fit its
  conversion, gives \<open>None\<close>. How a \<^verbatim>\<open>double\<close> is turned into decimal digits is a
  parameter \<open>fmt_f\<close> (precision and value to text).
\<close>

datatype directive = Lit char | Conv_d | Conv_ld | Conv_s | Conv_f nat

datatype printf_arg = Arg_int nat | Arg_long nat | Arg_str string | Arg_double real

definition digit_char :: "nat \<Rightarrow> char" where
  "digit_char d = ''0123456789'' ! d"

fun show_nat :: "nat \<Rightarrow> string" where
  "show_nat n =
     (if n < 10 then [digit_char n]
      else show_nat (n div 10) @ [digit_char (n mod 10)])"

declare show_nat.simps [simp del]

definition digit_value :: "char \<Rightarrow> nat option" where
  "digit_value c =
     (if (48::nat) \<le> of_char c \<and> (of_char c :: nat) \<le> 57
      then Some (of_char c - 48) else None)"

definition cons_option :: "'a \<Rightarrow> 'a list option \<Rightarrow> 'a list option" where
  "cons_option x r = (case r of None \<Rightarrow> None | Some xs \<Rightarrow> Some (x # xs))"

definition append_option :: "'a list \<Rightarrow> 'a list option \<Rightarrow> 'a list option" where
  "append_option xs r = (case r of None \<Rightarrow> None | Some ys \<Rightarrow> Some (xs @ ys))"

fun parse_format :: "string \<Rightarrow> directive list option" where
  "parse_format [] = Some []"
| "parse_format [c] = (if c = CHR ''%'' then None else Some [Lit c])"
| "parse_format (c # d # r) =
     (if c \<noteq> CHR ''%'' then cons_option (Lit c) (parse_format (d # r))
      else if d = CHR ''d'' then cons_option Conv_d (parse_format r)
      else if d = CHR ''s'' then cons_option Conv_s (parse_format r)
      else if d = CHR ''l'' then
        (case r of
           e # r' \<Rightarrow> if e = CHR ''d'' then cons_option Conv_ld (parse_format r') else None
         | [] \<Rightarrow> None)
      else if d = CHR ''.'' then
        (case r of
           p # f # r' \<Rightarrow>
             (case digit_value p of
                Some k \<Rightarrow> if f = CHR ''f'' then cons_option (Conv_f k) (parse_format r') else None
              | None \<Rightarrow> None)
         | _ \<Rightarrow> None)
      else None)"

fun render :: "(nat \<Rightarrow> real \<Rightarrow> string) \<Rightarrow> directive list \<Rightarrow> printf_arg list \<Rightarrow> string option" where
  "render fmt_f [] args = Some []"
| "render fmt_f (Lit c # ds) args = cons_option c (render fmt_f ds args)"
| "render fmt_f (Conv_d # ds) (Arg_int n # args) = append_option (show_nat n) (render fmt_f ds args)"
| "render fmt_f (Conv_ld # ds) (Arg_long n # args) = append_option (show_nat n) (render fmt_f ds args)"
| "render fmt_f (Conv_s # ds) (Arg_str s # args) = append_option s (render fmt_f ds args)"
| "render fmt_f (Conv_f k # ds) (Arg_double x # args) = append_option (fmt_f k x) (render fmt_f ds args)"
| "render fmt_f ds args = None"

definition fprintf :: "(nat \<Rightarrow> real \<Rightarrow> string) \<Rightarrow> string \<Rightarrow> printf_arg list \<Rightarrow> string option" where
  "fprintf fmt_f fmt args =
     (case parse_format fmt of None \<Rightarrow> None | Some ds \<Rightarrow> render fmt_f ds args)"

subsection \<open>The CSV file (lines 194--219)\<close>

definition csv_header_line :: string where
  "csv_header_line =
     ''steps,arrays,rows,cols,scaling,proc-rows,proc-cols,'' @
     ''slowdim,rank,alignment-increment,alignment-threshold,'' @
     ''layout,fill,mpi-io,wall [s],fsize [B],'' @
     ''write-phase-min [s],write-phase-max [s],'' @
     ''creat-min [s],creat-max [s],'' @
     ''write-min [s],write-max [s],'' @
     ''read-phase-min [s],read-phase-max [s],'' @
     ''read-min [s],read-max [s]''"

definition csv_header_format :: string where
  "csv_header_format = csv_header_line @ [CHR 0x0A]"

definition csv_row_format :: string where
  "csv_row_format =
     ''%d,%d,%ld,%ld,%s,%d,%d,%s,%d,%ld,%ld,%s,%s,%s,'' @
     ''%.2f,%.0f,%.2f,%.2f,%.2f,%.2f,'' @
     ''%.2f,%.2f,%.2f,%.2f,%.2f,%.2f'' @ [CHR 0x0A]"

definition csv_row_args :: "configuration \<Rightarrow> real \<Rightarrow> nat \<Rightarrow> statistics \<Rightarrow> printf_arg list" where
  "csv_row_args config wall_time fsize st =
     [Arg_int (steps config), Arg_int (arrays config), Arg_long (rows config), Arg_long (cols config),
      Arg_str (scaling config), Arg_int (proc_rows config), Arg_int (proc_cols config),
      Arg_str (slowest_dimension config), Arg_int (rank config),
      Arg_long (alignment_increment config), Arg_long (alignment_threshold config),
      Arg_str (layout config),
      Arg_str (fill_values config), Arg_str (mpi_io config), Arg_double wall_time, Arg_double (real fsize),
      Arg_double (min_write_phase st), Arg_double (max_write_phase st),
      Arg_double (min_create_time st), Arg_double (max_create_time st),
      Arg_double (min_write_time st), Arg_double (max_write_time st),
      Arg_double (min_read_phase st), Arg_double (max_read_phase st),
      Arg_double (min_read_time st), Arg_double (max_read_time st)]"

text \<open>
  \<^verbatim>\<open>fopen\<close>, the assertion on its result and the two \<^verbatim>\<open>fprintf\<close> calls; \<open>opened\<close>
  says whether \<^verbatim>\<open>fopen\<close> gave a stream. The result is the contents of the file
  afterwards, or \<open>None\<close> where \<^verbatim>\<open>fprintf\<close> is not defined.
\<close>

definition write_csv ::
  "bool \<Rightarrow> (nat \<Rightarrow> real \<Rightarrow> string) \<Rightarrow> configuration \<Rightarrow> real \<Rightarrow> nat \<Rightarrow> statistics
     \<Rightarrow> error + string option" where
  "write_csv opened fmt_f config wall_time fsize st =
     (if \<not> opened then Inl (Assertion_failed ''fptr != NULL'')
      else
        (case fprintf fmt_f csv_header_format [] of
           None \<Rightarrow> Inr None
         | Some header \<Rightarrow>
             (case fprintf fmt_f csv_row_format (csv_row_args config wall_time fsize st) of
                None \<Rightarrow> Inr None
              | Some row \<Rightarrow> Inr (Some (header @ row)))))"

text \<open>Reading a CSV file back: lines end in a newline, fields are separated by commas.\<close>

fun split_on :: "char \<Rightarrow> string \<Rightarrow> string list" where
  "split_on c [] = [ [] ]"
| "split_on c (x # xs) =
     (if x = c then [] # split_on c xs
      else (case split_on c xs of
              [] \<Rightarrow> [ [x] ]
            | f # fs \<Rightarrow> (x # f) # fs))"

definition csv_lines :: "string \<Rightarrow> string list" where
  "csv_lines text = butlast (split_on (CHR 0x0A) text)"

definition csv_fields :: "string \<Rightarrow> string list" where
  "csv_fields line = split_on (CHR '','') line"

subsection \<open>Library version bounds (\<^verbatim>\<open>set_libver_bounds\<close>, lines 227--289)\<close>

text \<open>
  The enumeration \<^verbatim>\<open>H5F_libver_t\<close>, the alias \<^verbatim>\<open>H5F_LIBVER_LATEST\<close> and the macro
  \<^verbatim>\<open>H5_VERSION_GE\<close> come from the HDF5 headers. The enumerators are ordered as listed;
  a release knows the enumerators up to its own format, and \<^verbatim>\<open>H5F_LIBVER_LATEST\<close> is
  the last one it knows (in 1.8, where only the two values 0 and 1 exist, it is 1).
  The library is an input: its version, which \<^verbatim>\<open>H5get_libversion\<close> reports and
  which is also the version of the headers, and the result codes of its two calls.
\<close>

datatype H5F_libver_t =
    H5F_LIBVER_EARLIEST
  | H5F_LIBVER_V18
  | H5F_LIBVER_V110
  | H5F_LIBVER_V112
  | H5F_LIBVER_V114

fun libver_value :: "H5F_libver_t \<Rightarrow> nat" where
  "libver_value H5F_LIBVER_EARLIEST = 0"
| "libver_value H5F_LIBVER_V18 = 1"
| "libver_value H5F_LIBVER_V110 = 2"
| "libver_value H5F_LIBVER_V112 = 3"
| "libver_value H5F_LIBVER_V114 = 4"

record hdf5_library =
  H5get_libversion :: int
  majnum :: nat
  minnum :: nat
  relnum :: nat
  H5Pset_libver_bounds :: int

definition H5_VERSION_GE :: "hdf5_library \<Rightarrow> nat \<Rightarrow> nat \<Rightarrow> nat \<Rightarrow> bool" where
  "H5_VERSION_GE lib major minor release \<longleftrightarrow>
     majnum lib > major
     \<or> (majnum lib = major \<and> minnum lib > minor)
     \<or> (majnum lib = major \<and> minnum lib = minor \<and> relnum lib \<ge> release)"

definition H5F_LIBVER_LATEST :: "hdf5_library \<Rightarrow> H5F_libver_t" where
  "H5F_LIBVER_LATEST lib =
     (if H5_VERSION_GE lib 1 13 0 then H5F_LIBVER_V114
      else if H5_VERSION_GE lib 1 12 0 then H5F_LIBVER_V112
      else if H5_VERSION_GE lib 1 10 0 then H5F_LIBVER_V110
      else H5F_LIBVER_V18)"

text \<open>The two chains of comparisons, lines 235--257 and 259--279.\<close>

definition low_bound :: "hdf5_library \<Rightarrow> configuration \<Rightarrow> H5F_libver_t" where
  "low_bound lib pconfig =
     (if strncmp (libver_bound_low pconfig) ''earliest'' 16 \<noteq> 0 then
        (if strncmp (libver_bound_low pconfig) ''v18'' 16 = 0 then
           (if H5_VERSION_GE lib 1 10 0 then H5F_LIBVER_V18 else H5F_LIBVER_LATEST lib)
         else if strncmp (libver_bound_low pconfig) ''v110'' 16 = 0 then
           (if H5_VERSION_GE lib 1 12 0 then H5F_LIBVER_V110 else H5F_LIBVER_LATEST lib)
         else if strncmp (libver_bound_low pconfig) ''v112'' 16 = 0 then
           (if H5_VERSION_GE lib 1 13 0 then H5F_LIBVER_V112 else H5F_LIBVER_LATEST lib)
         else H5F_LIBVER_LATEST lib)
      else H5F_LIBVER_EARLIEST)"

definition high_bound :: "hdf5_library \<Rightarrow> configuration \<Rightarrow> H5F_libver_t" where
  "high_bound lib pconfig =
     (if strncmp (libver_bound_high pconfig) ''latest'' 16 \<noteq> 0 then
        (if strncmp (libver_bound_high pconfig) ''v18'' 16 = 0 then
           (if H5_VERSION_GE lib 1 10 0 then H5F_LIBVER_V18 else H5F_LIBVER_LATEST lib)
         else if strncmp (libver_bound_high pconfig) ''v110'' 16 = 0 then
           (if H5_VERSION_GE lib 1 12 0 then H5F_LIBVER_V110 else H5F_LIBVER_LATEST lib)
         else if strncmp (libver_bound_high pconfig) ''v112'' 16 = 0 then
           (if H5_VERSION_GE lib 1 13 0 then H5F_LIBVER_V112 else H5F_LIBVER_LATEST lib)
         else H5F_LIBVER_LATEST lib)
      else H5F_LIBVER_LATEST lib)"

text \<open>
  The function returns the result code of \<^verbatim>\<open>H5Pset_libver_bounds\<close>; the model
  returns with it the two bounds that were set on the file access property list.
  Each of the four assertions is a way to abort. The line printed on rank 0 at the end
  is left out.
\<close>

definition set_libver_bounds ::
  "hdf5_library \<Rightarrow> configuration \<Rightarrow> error + (int \<times> H5F_libver_t \<times> H5F_libver_t)" where
  "set_libver_bounds lib pconfig =
     (if \<not> H5get_libversion lib \<ge> 0
      then Inl (Assertion_failed
                  ''(result = H5get_libversion(&majnum, &minnum, &relnum)) >= 0'')
      else if \<not> (majnum lib = 1 \<and> minnum lib \<ge> 8 \<and> minnum lib \<le> 13)
      then Inl (Assertion_failed ''majnum == 1 && minnum >= 8 && minnum <= 13'')
      else
        let low = low_bound lib pconfig; high = high_bound lib pconfig in
        if \<not> libver_value low \<le> libver_value high
        then Inl (Assertion_failed ''low <= high'')
        else if \<not> H5Pset_libver_bounds lib \<ge> 0
        then Inl (Assertion_failed ''(result = H5Pset_libver_bounds(fapl, low, high)) >= 0'')
        else Inr (H5Pset_libver_bounds lib, low, high))"

subsection \<open>The calls of \<^verbatim>\<open>main\<close>\<close>

datatype call =
    Call_MPI_Init | Call_MPI_Comm_size | Call_MPI_Comm_rank | Call_MPI_Wtime
  | Call_ini_parse | Call_sanity_check | Call_validate
  | Call_MPI_Bcast
  | Call_H5Pcreate | Call_H5Pset_dxpl_mpio | Call_H5Pset_fapl_mpio | Call_H5Pset_alignment
  | Call_set_libver_bounds | Call_printf
  | Call_MPI_Barrier
  | Call_write_test | Call_read_test
  | Call_H5Pclose
  | Call_H5Fopen | Call_H5Fget_filesize | Call_H5Fclose
  | Call_MPI_Reduce
  | Call_fopen | Call_fprintf | Call_fclose
  | Call_MPI_Finalize

subsection \<open>Loading and checking the configuration (lines 49--70)\<close>








subsection \<open>The phases of a run (lines 70--163)\<close>

text \<open>
  The calls of \<^verbatim>\<open>main\<close> in program order, when no call fails, on the process
  \<open>mpi_rank\<close>; \<open>align\<close> says whether \<^verbatim>\<open>config.alignment_increment > 1\<close>.
  The three barriers cut the list into four parts.
\<close>

definition before_first_barrier :: "nat \<Rightarrow> bool \<Rightarrow> call list" where
  "before_first_barrier mpi_rank align =
     [Call_MPI_Init, Call_MPI_Comm_size, Call_MPI_Comm_rank, Call_MPI_Wtime]
     @ (if mpi_rank = 0 then [Call_ini_parse, Call_sanity_check, Call_validate] else [])
     @ [Call_MPI_Bcast, Call_H5Pcreate, Call_H5Pset_dxpl_mpio, Call_H5Pcreate, Call_H5Pset_fapl_mpio]
     @ (if align then [Call_H5Pset_alignment] else [])
     @ [Call_set_libver_bounds]
     @ (if mpi_rank = 0 then replicate 4 Call_printf else [])"

definition write_phase_calls :: "call list" where
  "write_phase_calls = [Call_MPI_Wtime, Call_write_test, Call_MPI_Wtime]"

definition read_phase_calls :: "call list" where
  "read_phase_calls = [Call_MPI_Wtime, Call_read_test, Call_MPI_Wtime]"

definition after_third_barrier :: "nat \<Rightarrow> call list" where
  "after_third_barrier mpi_rank =
     [Call_H5Pclose, Call_H5Pclose, Call_MPI_Wtime]
     @ (if mpi_rank = 0 then [Call_H5Fopen, Call_H5Fget_filesize, Call_H5Fclose] else [])
     @ replicate 10 Call_MPI_Reduce
     @ (if mpi_rank = 0
        then replicate 13 Call_printf @ [Call_fopen, Call_fprintf, Call_fprintf, Call_fclose]
        else [])
     @ [Call_MPI_Finalize]"

definition main_calls :: "nat \<Rightarrow> bool \<Rightarrow> call list" where
  "main_calls mpi_rank align =
     before_first_barrier mpi_rank align @ Call_MPI_Barrier #
     write_phase_calls @ Call_MPI_Barrier #
     read_phase_calls @ Call_MPI_Barrier #
     after_third_barrier mpi_rank"

text \<open>
  The processes of a run, interleaved. A process has made the calls in \<open>past\<close> and
  has the calls in \<open>future\<close> before it; \<open>in_barrier\<close> says that it has entered the
  barrier at the head of \<open>future\<close> and has not left it. A call other than a barrier is
  a step of its process alone: this allows more interleavings than the collective
  calls really have. \<^verbatim>\<open>MPI_Barrier\<close> is entered freely and is left only when every
  process of the communicator has entered it, which is its contract. A process that
  has aborted makes no further step; a schedule that no longer names it covers that.
\<close>

record process =
  past :: "call list"
  future :: "call list"
  in_barrier :: bool

definition barriers_left :: "process \<Rightarrow> nat" where
  "barriers_left p = count_list (past p) Call_MPI_Barrier"

definition barriers_entered :: "process \<Rightarrow> nat" where
  "barriers_entered p = barriers_left p + (if in_barrier p then 1 else 0)"

definition advance :: "process \<Rightarrow> call \<Rightarrow> call list \<Rightarrow> process" where
  "advance p c cs = \<lparr> past = past p @ [c], future = cs, in_barrier = False \<rparr>"

definition step :: "nat \<Rightarrow> process list \<Rightarrow> process list option" where
  "step i ps =
     (if \<not> i < length ps then None
      else let p = ps ! i in
        (case future p of
           [] \<Rightarrow> None
         | c # cs \<Rightarrow>
             if c \<noteq> Call_MPI_Barrier then Some (ps[i := advance p c cs])
             else if \<not> in_barrier p then Some (ps[i := p\<lparr>in_barrier := True\<rparr>])
             else if list_all (\<lambda>q. barriers_entered p \<le> barriers_entered q) ps
             then Some (ps[i := advance p c cs])
             else None))"

text \<open>A schedule names the process that tries to move next; a blocked process stays.\<close>

fun run :: "nat list \<Rightarrow> process list \<Rightarrow> process list" where
  "run [] ps = ps"
| "run (i # schedule) ps =
     run schedule (case step i ps of None \<Rightarrow> ps | Some ps' \<Rightarrow> ps')"

definition start :: "nat \<Rightarrow> bool \<Rightarrow> process list" where
  "start nprocs align =
     map (\<lambda>r. \<lparr> past = [], future = main_calls r align, in_barrier = False \<rparr>) [0..<nprocs]"

text \<open>
  The phase a process works in is the number of barriers it has left: 0 for the
  broadcast and the set-up, 1 for the write phase, 2 for the read phase, 3 for the
  file-size query and the reductions. A process that waits at a barrier, or has no
  call left, works in no phase.
\<close>

definition current_phase :: "process \<Rightarrow> nat option" where
  "current_phase p =
     (case future p of
        [] \<Rightarrow> None
      | c # cs \<Rightarrow> if c = Call_MPI_Barrier then None else Some (barriers_left p))"

text \<open>
  A process has started the call \<open>c\<close> when it has made it or is about to make it;
  it has finished \<open>c\<close> when the call is in its past.
\<close>

definition started :: "call \<Rightarrow> process \<Rightarrow> bool" where
  "started c p \<longleftrightarrow>
     c \<in> set (past p) \<or> (case future p of [] \<Rightarrow> False | d # ds \<Rightarrow> d = c)"

definition finished :: "call \<Rightarrow> process \<Rightarrow> bool" where
  "finished c p \<longleftrightarrow> c \<in> set (past p)"

text \<open>The invariant of the interleaving, used in the proofs.\<close>

definition well_formed :: "nat \<Rightarrow> bool \<Rightarrow> process list \<Rightarrow> bool" where
  "well_formed nprocs align ps \<longleftrightarrow>
     length ps = nprocs
     \<and> (\<forall>i<nprocs. past (ps ! i) @ future (ps ! i) = main_calls i align
           \<and> (in_barrier (ps ! i) \<longrightarrow> (\<exists>cs. future (ps ! i) = Call_MPI_Barrier # cs)))
     \<and> (\<forall>i<nprocs. \<forall>j<nprocs. barriers_left (ps ! i) \<le> barriers_entered (ps ! j))"

subsection \<open>Auxiliary functions and example inputs\<close>

text \<open>Fields joined by commas, for the proofs about the CSV file.\<close>

fun join_fields :: "string list \<Rightarrow> string" where
  "join_fields [] = []"
| "join_fields [f] = f"
| "join_fields (f # g # fs) = f @ CHR '','' # join_fields (g # fs)"

text \<open>
  A rendering of \<^verbatim>\<open>%.Nf\<close> for values that are not negative, rounded half up, to
  have a concrete \<open>fmt_f\<close> in the examples: the digits of the value scaled by
  \<open>10 ^ k\<close>, with the point \<open>k\<close> digits from the right.
\<close>

definition fixed_point :: "nat \<Rightarrow> real \<Rightarrow> string" where
  "fixed_point k x =
     (let n = nat \<lfloor>x * 10 ^ k + 1 / 2\<rfloor> in
      if k = 0 then show_nat n
      else show_nat (n div 10 ^ k) @ CHR ''.'' # tl (show_nat (10 ^ k + n mod 10 ^ k)))"

text \<open>
  A schedule for two processes: process 0 runs up to the first barrier and enters it,
  process 1 does the same, then each in turn leaves it, runs its write phase and
  enters the second barrier, and at last process 0 leaves the second barrier and
  reads the clock, so that its next call is \<^verbatim>\<open>read_test\<close>.
\<close>

definition read_begins :: "nat list" where
  "read_begins =
     replicate 18 0 @ replicate 11 1 @ replicate 5 0 @ replicate 5 1 @ [0, 0]"

text \<open>The HDF5 release 1.10.7, with both calls succeeding, for the examples.\<close>

definition hdf5_1_10_7 :: hdf5_library where
  "hdf5_1_10_7 =
     \<lparr> H5get_libversion = 0, majnum = 1, minnum = 10, relnum = 7, H5Pset_libver_bounds = 0 \<rparr>"

text \<open>
  Two of the end-to-end scenarios: four processes on a 2 by 2 grid, with a global
  extent of 20 by 20 under strong scaling, and with 10 by 10 per process under weak
  scaling.
\<close>

definition strong_2x2 :: configuration where
  "strong_2x2 =
     \<lparr> steps = 1, arrays = 1, rows = 20, cols = 20, scaling = ''strong'',
       proc_rows = 2, proc_cols = 2, slowest_dimension = ''step'', rank = 3,
       alignment_increment = 1, alignment_threshold = 0, layout = ''contiguous'',
       fill_values = ''true'', mpi_io = ''collective'',
       libver_bound_low = ''earliest'', libver_bound_high = ''latest'',
       hdf5_file = ''hdf5_iotest.h5'', csv_file = ''hdf5_iotest.csv'' \<rparr>"

definition weak_2x2 :: configuration where
  "weak_2x2 =
     \<lparr> steps = 3, arrays = 2, rows = 10, cols = 10, scaling = ''weak'',
       proc_rows = 2, proc_cols = 2, slowest_dimension = ''step'', rank = 3,
       alignment_increment = 1, alignment_threshold = 0, layout = ''contiguous'',
       fill_values = ''true'', mpi_io = ''independent'',
       libver_bound_low = ''earliest'', libver_bound_high = ''latest'',
       hdf5_file = ''hdf5_iotest.h5'', csv_file = ''hdf5_iotest.csv'' \<rparr>"

text \<open>The timing records of a run with two processes.\<close>

definition two_timings :: "timing list" where
  "two_timings =
     [\<lparr> write_phase = 3, create_time = 1, write_time = 2, read_phase = 2, read_time = 1 \<rparr>,
      \<lparr> write_phase = 5, create_time = 1, write_time = 4, read_phase = 3, read_time = 2 \<rparr>]"

text \<open>
  The timing records of a run with three processes, in which no rank holds the
  smallest value of every field.
\<close>

definition three_timings :: "timing list" where
  "three_timings =
     [\<lparr> write_phase = 5, create_time = 2, write_time = 4, read_phase = 2, read_time = 3 \<rparr>,
      \<lparr> write_phase = 3, create_time = 1, write_time = 2, read_phase = 4, read_time = 1 \<rparr>,
      \<lparr> write_phase = 4, create_time = 3, write_time = 5, read_phase = 3, read_time = 2 \<rparr>]"

text \<open>Two more releases of HDF5 and a list of layouts, for the examples.\<close>

definition hdf5_1_8_22 :: hdf5_library where
  "hdf5_1_8_22 =
     \<lparr> H5get_libversion = 0, majnum = 1, minnum = 8, relnum = 22, H5Pset_libver_bounds = 0 \<rparr>"

definition hdf5_1_12_1 :: hdf5_library where
  "hdf5_1_12_1 =
     \<lparr> H5get_libversion = 0, majnum = 1, minnum = 12, relnum = 1, H5Pset_libver_bounds = 0 \<rparr>"


section \<open>Properties\<close>

subsection \<open>Auxiliary lemmas\<close>

lemma strncmp_eq_0_iff: "strncmp a b n = 0 \<longleftrightarrow> take n a = take n b"
  by (induction a b n rule: strncmp.induct) auto

lemma strncmp_literal:
  assumes "length b < n"
  shows "strncmp a b n = 0 \<longleftrightarrow> a = b"
proof -
  have "take n a = b \<longleftrightarrow> a = b"
  proof
    assume t: "take n a = b"
    then have "length (take n a) < n" using assms by simp
    then have "length a < n" by (simp add: min_def split: if_splits)
    then show "a = b" using t by simp
  next
    assume "a = b"
    then show "take n a = b" using assms by simp
  qed
  then show ?thesis using assms by (simp add: strncmp_eq_0_iff)
qed

lemma strong_scaling_flg_iff: "strong_scaling_flg config \<longleftrightarrow> scaling config = ''strong''"
  by (simp add: strong_scaling_flg_def strncmp_literal)

lemma coll_mpi_io_flg_iff: "coll_mpi_io_flg config \<longleftrightarrow> mpi_io config = ''collective''"
  by (simp add: coll_mpi_io_flg_def strncmp_literal)

lemma MPI_Reduce_MIN: "xs \<noteq> [] \<Longrightarrow> MPI_Reduce xs r MPI_MIN = Min (set xs)"
  by (cases xs) (simp_all only: MPI_Reduce.simps reduce_op.simps Min.set_eq_fold, simp_all)

lemma MPI_Reduce_MAX: "xs \<noteq> [] \<Longrightarrow> MPI_Reduce xs r MPI_MAX = Max (set xs)"
  by (cases xs) (simp_all only: MPI_Reduce.simps reduce_op.simps Max.set_eq_fold, simp_all)

lemma MPI_Reduce_le: "xs \<noteq> [] \<Longrightarrow> MPI_Reduce xs r MPI_MIN \<le> MPI_Reduce xs r' MPI_MAX"
  by (simp add: MPI_Reduce_MIN MPI_Reduce_MAX)

lemma weak_2x2_extent: "local_extent weak_2x2 = Inr (10, 10)"
  by (simp add: local_extent_def my_rows_def my_cols_def strong_scaling_flg_iff weak_2x2_def)

lemma strong_2x2_extent: "local_extent strong_2x2 = Inr (10, 10)"
  by (simp add: local_extent_def my_rows_def my_cols_def strong_scaling_flg_iff strong_2x2_def)

subsection \<open>Throughput rates\<close>

text \<open>
  C1. The rates pair inversely with the times. In a run with at least one process
  whose byte count \<open>bc\<close> was computed, the minimum write rate is \<open>bc\<close> divided by
  1024 * 1024 times the maximum write time over all processes, the maximum write rate
  uses the minimum write time, and the read rates use the read times in the same way.
\<close>

theorem rates_pair_inversely:
  assumes "ts \<noteq> []" and "report_byte_count config = Inr bc"
  shows "report_rates config ts =
     Inr \<lparr> min_write_rate = double_div bc (1024 * 1024 * Max (write_time ` set ts)),
           max_write_rate = double_div bc (1024 * 1024 * Min (write_time ` set ts)),
           min_read_rate = double_div bc (1024 * 1024 * Max (read_time ` set ts)),
           max_read_rate = double_div bc (1024 * 1024 * Min (read_time ` set ts)) \<rparr>"
  using assms
  by (simp add: report_rates_def throughput_def reduce_statistics_def
      MPI_Reduce_MAX MPI_Reduce_MIN)

text \<open>
  In the run with the two timing records above (write times 2 and 4, read times 1 and
  2) and 4800 bytes per process, the minimum write rate is 4800 / (1024 * 1024 * 4).
\<close>

theorem rates_pair_inversely_witness:
  "two_timings \<noteq> [] \<and> report_byte_count weak_2x2 = Inr 4800 \<and>
   report_rates weak_2x2 two_timings =
     Inr \<lparr> min_write_rate = Finite (4800 / (1024 * 1024 * 4)),
           max_write_rate = Finite (4800 / (1024 * 1024 * 2)),
           min_read_rate = Finite (4800 / (1024 * 1024 * 2)),
           max_read_rate = Finite (4800 / (1024 * 1024 * 1)) \<rparr>"
proof -
  have ne: "two_timings \<noteq> []" by (simp add: two_timings_def)
  have bc: "report_byte_count weak_2x2 = Inr 4800"
    by (simp add: report_byte_count_def weak_2x2_extent byte_count_def sizeof_double_def)
      (simp add: weak_2x2_def)
  show ?thesis
    using rates_pair_inversely[OF ne bc] ne bc
    by (simp add: two_timings_def double_div_def)
qed

text \<open>
  C2. The byte count behind all four rates is steps * arrays * local rows * local
  columns * 8, with the local extent of the reporting process, under either scaling
  mode.
\<close>

theorem byte_count_of_local_extent:
  assumes "local_extent config = Inr (mr, mc)"
  shows "report_byte_count config = Inr (real (steps config * arrays config * mr * mc * 8))
    \<and> report_rates config ts =
        Inr \<lparr> min_write_rate = double_div (real (steps config * arrays config * mr * mc * 8))
                                  (1024 * 1024 * max_write_time (reduce_statistics ts)),
              max_write_rate = double_div (real (steps config * arrays config * mr * mc * 8))
                                  (1024 * 1024 * min_write_time (reduce_statistics ts)),
              min_read_rate = double_div (real (steps config * arrays config * mr * mc * 8))
                                  (1024 * 1024 * max_read_time (reduce_statistics ts)),
              max_read_rate = double_div (real (steps config * arrays config * mr * mc * 8))
                                  (1024 * 1024 * min_read_time (reduce_statistics ts)) \<rparr>"
  using assms
  by (simp add: report_rates_def report_byte_count_def byte_count_def sizeof_double_def
      throughput_def)

text \<open>
  Weak scaling on a 2 by 2 grid with 10 by 10 per process (3 steps, 2 arrays): the
  count is 3 * 2 * 10 * 10 * 8 = 4800, from the local 10 by 10 extent, and not
  3 * 2 * 20 * 20 * 8 = 19200.
\<close>

theorem byte_count_of_local_extent_witness:
  "local_extent weak_2x2 = Inr (10, 10) \<and>
   report_byte_count weak_2x2 = Inr 4800 \<and> report_byte_count weak_2x2 \<noteq> Inr 19200"
  using byte_count_of_local_extent[OF weak_2x2_extent] weak_2x2_extent
  by (simp add: weak_2x2_def)

subsection \<open>Process grid and local extent\<close>

text \<open>
  C3. The local extent of a process: under strong scaling (the scaling string is
  "strong") it is rows div proc\_rows by cols div proc\_cols, where a grid dimension of
  zero makes the division trap; otherwise it is the global rows by cols unchanged.
\<close>

theorem local_extent_by_scaling:
  "local_extent config =
     (if scaling config = ''strong''
      then (if proc_rows config = 0 \<or> proc_cols config = 0 then Inl Division_by_zero
            else Inr (rows config div proc_rows config, cols config div proc_cols config))
      else Inr (rows config, cols config))"
  by (simp add: local_extent_def my_rows_def my_cols_def strong_scaling_flg_iff)

text \<open>Four processes on a 2 by 2 grid, global 20 by 20, strong scaling: 10 by 10 each.\<close>

theorem local_extent_by_scaling_witness:
  "local_extent strong_2x2 = Inr (10, 10) \<and>
   local_extent (strong_2x2\<lparr>scaling := ''weak''\<rparr>) = Inr (20, 20)"
  using local_extent_by_scaling[of strong_2x2]
    local_extent_by_scaling[of "strong_2x2\<lparr>scaling := ''weak''\<rparr>"]
  by (simp add: strong_2x2_def)

text \<open>
  C4. When proc\_rows * proc\_cols is the number of processes, the map from a rank to
  (rank div proc\_cols, rank mod proc\_cols) is a bijection from the ranks
  0, ..., size - 1 onto the grid {0, ..., proc\_rows - 1} x {0, ..., proc\_cols - 1};
  in particular no rank traps.
\<close>

theorem grid_coordinate_bijective:
  assumes "proc_rows config * proc_cols config = nprocs"
  shows "bij_betw (\<lambda>r. grid_coordinate r config) {0..<nprocs}
           (Inr ` ({0..<proc_rows config} \<times> {0..<proc_cols config}))"
proof (cases "proc_cols config = 0")
  case True
  with assms show ?thesis by (simp add: bij_betw_def)
next
  case False
  define pc where "pc = proc_cols config"
  define pr where "pr = proc_rows config"
  have pc: "0 < pc" using False by (simp add: pc_def)
  have sz: "nprocs = pr * pc" using assms by (simp add: pc_def pr_def)
  have gc: "grid_coordinate r config = Inr (r div pc, r mod pc)" for r
    using False by (simp add: grid_coordinate_def my_proc_row_def my_proc_col_def pc_def)
  have inj: "inj_on (\<lambda>r. (r div pc, r mod pc)) {0..<nprocs}"
  proof (rule inj_onI)
    fix x y assume "(x div pc, x mod pc) = (y div pc, y mod pc)"
    then have "x div pc = y div pc" "x mod pc = y mod pc" by simp_all
    then show "x = y" by (metis div_mult_mod_eq)
  qed
  have img: "(\<lambda>r. (r div pc, r mod pc)) ` {0..<nprocs} = {0..<pr} \<times> {0..<pc}"
  proof (rule set_eqI, rule iffI)
    fix p assume "p \<in> (\<lambda>r. (r div pc, r mod pc)) ` {0..<nprocs}"
    then obtain r where r: "r < pr * pc" "p = (r div pc, r mod pc)" using sz by auto
    have "r div pc < pr" using r(1) pc by (simp add: less_mult_imp_div_less)
    moreover have "r mod pc < pc" using pc by simp
    ultimately show "p \<in> {0..<pr} \<times> {0..<pc}" using r(2) by simp
  next
    fix p assume "p \<in> {0..<pr} \<times> {0..<pc}"
    then obtain i j where ij: "p = (i, j)" "i < pr" "j < pc" by auto
    have "i * pc + j < pr * pc"
    proof -
      have "i * pc + j < i * pc + pc" using ij(3) by simp
      also have "\<dots> = Suc i * pc" by simp
      also have "\<dots> \<le> pr * pc" using ij(2) by (intro mult_le_mono1) simp
      finally show ?thesis .
    qed
    moreover have "(i * pc + j) div pc = i" "(i * pc + j) mod pc = j" using ij(3) by simp_all
    ultimately show "p \<in> (\<lambda>r. (r div pc, r mod pc)) ` {0..<nprocs}"
      using ij(1) sz by (intro image_eqI[where x = "i * pc + j"]) simp_all
  qed
  have "bij_betw (\<lambda>r. (r div pc, r mod pc)) {0..<nprocs} ({0..<pr} \<times> {0..<pc})"
    using inj img by (simp add: bij_betw_def)
  then have "bij_betw (Inr \<circ> (\<lambda>r. (r div pc, r mod pc))) {0..<nprocs}
               (Inr ` ({0..<pr} \<times> {0..<pc}))"
    by (intro bij_betw_trans[where B = "{0..<pr} \<times> {0..<pc}"])
      (auto simp: bij_betw_def inj_on_def)
  moreover have "(\<lambda>r. grid_coordinate r config) = Inr \<circ> (\<lambda>r. (r div pc, r mod pc))"
    by (rule ext) (simp add: gc)
  ultimately show ?thesis by (simp add: pc_def pr_def)
qed

text \<open>The four ranks of the 2 by 2 grid and their coordinates.\<close>

theorem grid_coordinate_bijective_witness:
  "proc_rows strong_2x2 * proc_cols strong_2x2 = 4 \<and>
   bij_betw (\<lambda>r. grid_coordinate r strong_2x2) {0..<4} (Inr ` ({0..<2} \<times> {0..<2})) \<and>
   map (\<lambda>r. grid_coordinate r strong_2x2) [0, 1, 2, 3] =
     [Inr (0, 0), Inr (0, 1), Inr (1, 0), Inr (1, 1)]"
proof -
  have h: "proc_rows strong_2x2 * proc_cols strong_2x2 = 4" by (simp add: strong_2x2_def)
  have m: "map (\<lambda>r. grid_coordinate r strong_2x2) [0, 1, 2, 3] =
     [Inr (0, 0), Inr (0, 1), Inr (1, 0), Inr (1, 1)]"
    by (simp add: grid_coordinate_def my_proc_row_def my_proc_col_def strong_2x2_def)
  show ?thesis
    using grid_coordinate_bijective[OF h] h m by (simp add: strong_2x2_def)
qed

subsection \<open>The CSV file\<close>

lemma parse_format_literal: "CHR ''%'' \<notin> set s \<Longrightarrow> parse_format s = Some (map Lit s)"
  by (induction s rule: parse_format.induct) (auto simp: cons_option_def)

lemma render_literal: "render fmt_f (map Lit s) args = Some s"
  by (induction s) (auto simp: cons_option_def)

lemma fprintf_header: "fprintf fmt_f csv_header_format [] = Some csv_header_format"
proof -
  have "CHR ''%'' \<notin> set csv_header_format"
    by (simp add: csv_header_format_def csv_header_line_def)
  then show ?thesis by (simp add: fprintf_def parse_format_literal render_literal)
qed

lemma parse_row_format:
  "parse_format csv_row_format =
     Some [Conv_d, Lit CHR '','', Conv_d, Lit CHR '','', Conv_ld, Lit CHR '','',
       Conv_ld, Lit CHR '','', Conv_s, Lit CHR '','', Conv_d, Lit CHR '','',
       Conv_d, Lit CHR '','', Conv_s, Lit CHR '','', Conv_d, Lit CHR '','',
       Conv_ld, Lit CHR '','', Conv_ld, Lit CHR '','', Conv_s, Lit CHR '','',
       Conv_s, Lit CHR '','', Conv_s, Lit CHR '','', Conv_f 2, Lit CHR '','',
       Conv_f 0, Lit CHR '','', Conv_f 2, Lit CHR '','', Conv_f 2,
       Lit CHR '','', Conv_f 2, Lit CHR '','', Conv_f 2, Lit CHR '','',
       Conv_f 2, Lit CHR '','', Conv_f 2, Lit CHR '','', Conv_f 2,
       Lit CHR '','', Conv_f 2, Lit CHR '','', Conv_f 2, Lit CHR '','',
       Conv_f 2, Lit (CHR 0x0A)]"
  by (simp add: csv_row_format_def cons_option_def digit_value_def)

lemma split_on_notin: "c \<notin> set a \<Longrightarrow> split_on c a = [a]"
  by (induction a) auto

lemma split_on_append: "c \<notin> set a \<Longrightarrow> split_on c (a @ c # rest) = a # split_on c rest"
  by (induction a) auto

lemma digit_char_digit: "d < 10 \<Longrightarrow> digit_char d \<in> set ''0123456789''"
  unfolding digit_char_def by (rule nth_mem) simp

lemma show_nat_digits: "set (show_nat n) \<subseteq> set ''0123456789''"
proof (induction n rule: show_nat.induct)
  case (1 n)
  show ?case
  proof (cases "n < 10")
    case True
    then show ?thesis using digit_char_digit[of n] by (subst show_nat.simps) simp
  next
    case False
    have "n mod 10 < 10" by simp
    from digit_char_digit[OF this] 1[OF False] False show ?thesis
      by (subst show_nat.simps) simp
  qed
qed

lemma show_nat_clean: "CHR '','' \<notin> set (show_nat n)" "CHR 0x0A \<notin> set (show_nat n)"
  using show_nat_digits[of n] by auto

lemma fixed_point_clean:
  "CHR '','' \<notin> set (fixed_point k x)" "CHR 0x0A \<notin> set (fixed_point k x)"
proof -
  have t: "set (tl (show_nat m)) \<subseteq> set ''0123456789''" for m
    using show_nat_digits[of m] by (cases "show_nat m") auto
  show "CHR '','' \<notin> set (fixed_point k x)" "CHR 0x0A \<notin> set (fixed_point k x)"
    using t[of "10 ^ k + nat \<lfloor>x * 10 ^ k + 1 / 2\<rfloor> mod 10 ^ k"]
    by (auto simp: fixed_point_def Let_def show_nat_clean)
qed

lemma header_fields:
  "csv_fields csv_header_line =
     [''steps'', ''arrays'', ''rows'', ''cols'', ''scaling'', ''proc-rows'',
      ''proc-cols'', ''slowdim'', ''rank'', ''alignment-increment'',
      ''alignment-threshold'', ''layout'', ''fill'', ''mpi-io'', ''wall [s]'',
      ''fsize [B]'', ''write-phase-min [s]'', ''write-phase-max [s]'',
      ''creat-min [s]'', ''creat-max [s]'', ''write-min [s]'',
      ''write-max [s]'', ''read-phase-min [s]'', ''read-phase-max [s]'',
      ''read-min [s]'', ''read-max [s]'']"
  by (simp add: csv_fields_def csv_header_line_def)

lemma header_clean: "CHR 0x0A \<notin> set csv_header_line"
  by (simp add: csv_header_line_def)

lemma split_join:
  "fs \<noteq> [] \<Longrightarrow> \<forall>f \<in> set fs. CHR '','' \<notin> set f \<Longrightarrow>
   split_on (CHR '','') (join_fields fs) = fs"
  by (induction fs rule: join_fields.induct) (auto simp: split_on_notin split_on_append)

lemma join_clean:
  "\<forall>f \<in> set fs. c \<notin> set f \<Longrightarrow> c \<noteq> CHR '','' \<Longrightarrow> c \<notin> set (join_fields fs)"
  by (induction fs rule: join_fields.induct) auto

lemma lines_two:
  assumes "CHR 0x0A \<notin> set h" "CHR 0x0A \<notin> set r"
  shows "csv_lines ((h @ [CHR 0x0A]) @ (r @ [CHR 0x0A])) = [h, r]"
  using assms by (simp add: csv_lines_def split_on_append)

lemma fprintf_row:
  "fprintf fmt_f csv_row_format (csv_row_args config wall_time fsize st) =
     Some (join_fields
       [show_nat (steps config), show_nat (arrays config), show_nat (rows config),
        show_nat (cols config), scaling config, show_nat (proc_rows config),
        show_nat (proc_cols config), slowest_dimension config, show_nat (rank config),
        show_nat (alignment_increment config), show_nat (alignment_threshold config),
        layout config, fill_values config, mpi_io config,
        fmt_f 2 wall_time, fmt_f 0 (real fsize),
        fmt_f 2 (min_write_phase st), fmt_f 2 (max_write_phase st),
        fmt_f 2 (min_create_time st), fmt_f 2 (max_create_time st),
        fmt_f 2 (min_write_time st), fmt_f 2 (max_write_time st),
        fmt_f 2 (min_read_phase st), fmt_f 2 (max_read_phase st),
        fmt_f 2 (min_read_time st), fmt_f 2 (max_read_time st)] @ [CHR 0x0A])"
  by (simp add: fprintf_def parse_row_format csv_row_args_def cons_option_def append_option_def)

text \<open>
  C5, as stated: the header has 26 comma-separated fields whose names are steps,
  arrays, ..., mpi-io, wall[s], fsize[B], write-phase-min[s], ..., read-max[s]. The
  header that the code writes spells the twelve names that carry a unit with a space
  before the bracket, so the field names read back from it are not the stated ones.
\<close>

theorem csv_header_names_counterexample:
  "csv_fields csv_header_line \<noteq>
     [''steps'', ''arrays'', ''rows'', ''cols'', ''scaling'', ''proc-rows'',
      ''proc-cols'', ''slowdim'', ''rank'', ''alignment-increment'',
      ''alignment-threshold'', ''layout'', ''fill'', ''mpi-io'', ''wall[s]'',
      ''fsize[B]'', ''write-phase-min[s]'', ''write-phase-max[s]'',
      ''creat-min[s]'', ''creat-max[s]'', ''write-min[s]'',
      ''write-max[s]'', ''read-phase-min[s]'', ''read-phase-max[s]'',
      ''read-min[s]'', ''read-max[s]'']"
  by (simp add: header_fields)

text \<open>
  C5, amended. When the file could be opened and no settings string and no rendered
  number contains a comma or a newline, the file written has exactly two lines of 26
  comma-separated fields each: the header with the names steps, arrays, rows, cols,
  scaling, proc-rows, proc-cols, slowdim, rank, alignment-increment,
  alignment-threshold, layout, fill, mpi-io, wall [s], fsize [B],
  write-phase-min [s], write-phase-max [s], creat-min [s], creat-max [s],
  write-min [s], write-max [s], read-phase-min [s], read-phase-max [s], read-min [s],
  read-max [s] in this order, and one data row with the corresponding 26 values.
\<close>

theorem csv_file_contents:
  assumes strs: "\<forall>s \<in> {scaling config, slowest_dimension config, layout config,
                       fill_values config, mpi_io config}.
                   CHR '','' \<notin> set s \<and> CHR 0x0A \<notin> set s"
    and nums: "\<forall>k x. CHR '','' \<notin> set (fmt_f k x) \<and> CHR 0x0A \<notin> set (fmt_f k x)"
  shows "\<exists>contents. write_csv True fmt_f config wall_time fsize st = Inr (Some contents) \<and>
     map csv_fields (csv_lines contents) =
     [ [''steps'', ''arrays'', ''rows'', ''cols'', ''scaling'', ''proc-rows'',
       ''proc-cols'', ''slowdim'', ''rank'', ''alignment-increment'',
       ''alignment-threshold'', ''layout'', ''fill'', ''mpi-io'', ''wall [s]'',
       ''fsize [B]'', ''write-phase-min [s]'', ''write-phase-max [s]'',
       ''creat-min [s]'', ''creat-max [s]'', ''write-min [s]'',
       ''write-max [s]'', ''read-phase-min [s]'', ''read-phase-max [s]'',
       ''read-min [s]'', ''read-max [s]''],
      [show_nat (steps config), show_nat (arrays config), show_nat (rows config),
       show_nat (cols config), scaling config, show_nat (proc_rows config),
       show_nat (proc_cols config), slowest_dimension config, show_nat (rank config),
       show_nat (alignment_increment config), show_nat (alignment_threshold config),
       layout config, fill_values config, mpi_io config,
       fmt_f 2 wall_time, fmt_f 0 (real fsize),
       fmt_f 2 (min_write_phase st), fmt_f 2 (max_write_phase st),
       fmt_f 2 (min_create_time st), fmt_f 2 (max_create_time st),
       fmt_f 2 (min_write_time st), fmt_f 2 (max_write_time st),
       fmt_f 2 (min_read_phase st), fmt_f 2 (max_read_phase st),
       fmt_f 2 (min_read_time st), fmt_f 2 (max_read_time st)] ]
     \<and> list_all (\<lambda>fields. length fields = 26) (map csv_fields (csv_lines contents))"
proof -
  let ?vals = "[show_nat (steps config), show_nat (arrays config), show_nat (rows config),
       show_nat (cols config), scaling config, show_nat (proc_rows config),
       show_nat (proc_cols config), slowest_dimension config, show_nat (rank config),
       show_nat (alignment_increment config), show_nat (alignment_threshold config),
       layout config, fill_values config, mpi_io config,
       fmt_f 2 wall_time, fmt_f 0 (real fsize),
       fmt_f 2 (min_write_phase st), fmt_f 2 (max_write_phase st),
       fmt_f 2 (min_create_time st), fmt_f 2 (max_create_time st),
       fmt_f 2 (min_write_time st), fmt_f 2 (max_write_time st),
       fmt_f 2 (min_read_phase st), fmt_f 2 (max_read_phase st),
       fmt_f 2 (min_read_time st), fmt_f 2 (max_read_time st)]"
  let ?row = "join_fields ?vals"
  have comma: "\<forall>f \<in> set ?vals. CHR '','' \<notin> set f"
    using strs nums by (simp add: show_nat_clean)
  have nl: "\<forall>f \<in> set ?vals. CHR 0x0A \<notin> set f"
    using strs nums by (simp add: show_nat_clean)
  have row_nl: "CHR 0x0A \<notin> set ?row"
    by (rule join_clean[OF nl]) simp
  have w: "write_csv True fmt_f config wall_time fsize st
             = Inr (Some ((csv_header_line @ [CHR 0x0A]) @ (?row @ [CHR 0x0A])))"
    unfolding write_csv_def fprintf_header fprintf_row
    by (simp add: csv_header_format_def)
  have l: "csv_lines ((csv_header_line @ [CHR 0x0A]) @ (?row @ [CHR 0x0A]))
             = [csv_header_line, ?row]"
    by (rule lines_two[OF header_clean row_nl])
  have r: "csv_fields ?row = ?vals"
    unfolding csv_fields_def by (rule split_join[OF _ comma]) simp
  define contents where "contents = (csv_header_line @ [CHR 0x0A]) @ (?row @ [CHR 0x0A])"
  have m: "map csv_fields (csv_lines contents) = [csv_fields csv_header_line, ?vals]"
    unfolding contents_def by (simp only: l list.map r)
  have n: "list_all (\<lambda>fields. length fields = 26) (map csv_fields (csv_lines contents))"
    unfolding m header_fields by simp
  show ?thesis
  proof (intro exI[of _ contents] conjI)
    show "write_csv True fmt_f config wall_time fsize st = Inr (Some contents)"
      unfolding contents_def by (rule w)
    show "list_all (\<lambda>fields. length fields = 26) (map csv_fields (csv_lines contents))"
      by (rule n)
  qed (rule m[unfolded header_fields])
qed

lemma two_timings_statistics:
  "reduce_statistics two_timings =
     \<lparr> min_write_phase = 3, max_write_phase = 5,
       min_create_time = 1, max_create_time = 1,
       min_write_time = 2, max_write_time = 4,
       min_read_phase = 2, max_read_phase = 3,
       min_read_time = 1, max_read_time = 2 \<rparr>"
  by (simp add: reduce_statistics_def two_timings_def)

lemma show_nat_examples:
  "show_nat 20 = ''20''" "show_nat 0 = ''0''" "show_nat 1 = ''1''"
  "show_nat (Suc 0) = ''1''" "show_nat 2 = ''2''" "show_nat 3 = ''3''"
  by (simp_all add: show_nat.simps digit_char_def)

lemma fixed_point_examples:
  "fixed_point 2 (29 / 4) = ''7.25''" "fixed_point 0 2048 = ''2048''"
  "fixed_point 2 1 = ''1.00''" "fixed_point 2 2 = ''2.00''" "fixed_point 2 3 = ''3.00''"
  "fixed_point 2 4 = ''4.00''" "fixed_point 2 5 = ''5.00''"
  by (simp_all add: fixed_point_def Let_def show_nat.simps digit_char_def)

text \<open>
  The file of a run of the strong-scaling scenario that took 7.25 seconds and left a
  file of 2048 bytes, with the two timing records above.
\<close>

theorem csv_file_contents_witness:
  "\<exists>contents.
     write_csv True fixed_point strong_2x2 (29 / 4) 2048 (reduce_statistics two_timings)
       = Inr (Some contents) \<and>
     map csv_fields (csv_lines contents) =
     [ [''steps'', ''arrays'', ''rows'', ''cols'', ''scaling'', ''proc-rows'',
       ''proc-cols'', ''slowdim'', ''rank'', ''alignment-increment'',
       ''alignment-threshold'', ''layout'', ''fill'', ''mpi-io'', ''wall [s]'',
       ''fsize [B]'', ''write-phase-min [s]'', ''write-phase-max [s]'',
       ''creat-min [s]'', ''creat-max [s]'', ''write-min [s]'',
       ''write-max [s]'', ''read-phase-min [s]'', ''read-phase-max [s]'',
       ''read-min [s]'', ''read-max [s]''],
      [''1'', ''1'', ''20'', ''20'', ''strong'', ''2'', ''2'', ''step'', ''3'', ''1'', ''0'',
       ''contiguous'', ''true'', ''collective'', ''7.25'', ''2048'',
       ''3.00'', ''5.00'', ''1.00'', ''1.00'', ''2.00'', ''4.00'', ''2.00'', ''3.00'',
       ''1.00'', ''2.00''] ]"
proof -
  let ?c = strong_2x2
  let ?st = "reduce_statistics two_timings"
  have strs: "\<forall>s \<in> {scaling ?c, slowest_dimension ?c, layout ?c, fill_values ?c, mpi_io ?c}.
                CHR '','' \<notin> set s \<and> CHR 0x0A \<notin> set s"
    by (simp add: strong_2x2_def)
  have nums: "\<forall>k x. CHR '','' \<notin> set (fixed_point k x) \<and> CHR 0x0A \<notin> set (fixed_point k x)"
    by (simp add: fixed_point_clean)
  have vals:
    "[show_nat (steps ?c), show_nat (arrays ?c), show_nat (rows ?c), show_nat (cols ?c),
      scaling ?c, show_nat (proc_rows ?c), show_nat (proc_cols ?c), slowest_dimension ?c,
      show_nat (rank ?c), show_nat (alignment_increment ?c),
      show_nat (alignment_threshold ?c), layout ?c, fill_values ?c, mpi_io ?c,
      fixed_point 2 (29 / 4), fixed_point 0 (real 2048),
      fixed_point 2 (min_write_phase ?st), fixed_point 2 (max_write_phase ?st),
      fixed_point 2 (min_create_time ?st), fixed_point 2 (max_create_time ?st),
      fixed_point 2 (min_write_time ?st), fixed_point 2 (max_write_time ?st),
      fixed_point 2 (min_read_phase ?st), fixed_point 2 (max_read_phase ?st),
      fixed_point 2 (min_read_time ?st), fixed_point 2 (max_read_time ?st)]
     = [''1'', ''1'', ''20'', ''20'', ''strong'', ''2'', ''2'', ''step'', ''3'', ''1'', ''0'',
        ''contiguous'', ''true'', ''collective'', ''7.25'', ''2048'',
        ''3.00'', ''5.00'', ''1.00'', ''1.00'', ''2.00'', ''4.00'', ''2.00'', ''3.00'',
        ''1.00'', ''2.00'']"
    unfolding two_timings_statistics
    by (simp add: strong_2x2_def show_nat_examples fixed_point_examples)
  from csv_file_contents[OF strs nums, of "29 / 4" 2048 ?st]
  show ?thesis unfolding vals
    by (elim exE conjE) (intro exI conjI, assumption+)
qed

subsection \<open>Reduction of the timing records\<close>

text \<open>
  C6. For a run with at least one process, each of the ten aggregates is the minimum,
  respectively the maximum, of the field over the timing records of all processes
  (separate MIN and MAX reductions over the same values), and so the aggregated
  minimum is at most the aggregated maximum for each of the five timing fields
  (write phase, create time, write time, read phase, read time).
\<close>

theorem min_le_max:
  assumes "ts \<noteq> []"
  shows "let st = reduce_statistics ts in
     min_write_phase st = Min (write_phase ` set ts) \<and>
     max_write_phase st = Max (write_phase ` set ts) \<and>
     min_create_time st = Min (create_time ` set ts) \<and>
     max_create_time st = Max (create_time ` set ts) \<and>
     min_write_time st = Min (write_time ` set ts) \<and>
     max_write_time st = Max (write_time ` set ts) \<and>
     min_read_phase st = Min (read_phase ` set ts) \<and>
     max_read_phase st = Max (read_phase ` set ts) \<and>
     min_read_time st = Min (read_time ` set ts) \<and>
     max_read_time st = Max (read_time ` set ts) \<and>
     min_write_phase st \<le> max_write_phase st \<and>
     min_create_time st \<le> max_create_time st \<and>
     min_write_time st \<le> max_write_time st \<and>
     min_read_phase st \<le> max_read_phase st \<and>
     min_read_time st \<le> max_read_time st"
  using assms
  by (simp add: reduce_statistics_def MPI_Reduce_le)
    (simp add: MPI_Reduce_MIN MPI_Reduce_MAX)

text \<open>
  With the three timing records above: the smallest write phase, 3, is the one of
  rank 1 and the largest, 5, the one of rank 0; the smallest read phase, 2, is the
  one of rank 0 and the largest, 4, the one of rank 1; the largest create time and
  write time are those of rank 2.
\<close>

theorem min_le_max_witness:
  "three_timings \<noteq> [] \<and>
   reduce_statistics three_timings =
     \<lparr> min_write_phase = 3, max_write_phase = 5,
       min_create_time = 1, max_create_time = 3,
       min_write_time = 2, max_write_time = 5,
       min_read_phase = 2, max_read_phase = 4,
       min_read_time = 1, max_read_time = 3 \<rparr> \<and>
   (let st = reduce_statistics three_timings in
     min_write_phase st = Min (write_phase ` set three_timings) \<and>
     max_write_phase st = Max (write_phase ` set three_timings) \<and>
     min_read_phase st = Min (read_phase ` set three_timings) \<and>
     max_read_phase st = Max (read_phase ` set three_timings) \<and>
     min_write_phase st \<le> max_write_phase st \<and>
     min_create_time st \<le> max_create_time st \<and>
     min_write_time st \<le> max_write_time st \<and>
     min_read_phase st \<le> max_read_phase st \<and>
     min_read_time st \<le> max_read_time st)"
proof -
  have ne: "three_timings \<noteq> []" by (simp add: three_timings_def)
  have v: "reduce_statistics three_timings =
     \<lparr> min_write_phase = 3, max_write_phase = 5,
       min_create_time = 1, max_create_time = 3,
       min_write_time = 2, max_write_time = 5,
       min_read_phase = 2, max_read_phase = 4,
       min_read_time = 1, max_read_time = 3 \<rparr>"
    by (simp add: reduce_statistics_def three_timings_def)
  from min_le_max[OF ne] have
    "let st = reduce_statistics three_timings in
     min_write_phase st = Min (write_phase ` set three_timings) \<and>
     max_write_phase st = Max (write_phase ` set three_timings) \<and>
     min_read_phase st = Min (read_phase ` set three_timings) \<and>
     max_read_phase st = Max (read_phase ` set three_timings) \<and>
     min_write_phase st \<le> max_write_phase st \<and>
     min_create_time st \<le> max_create_time st \<and>
     min_write_time st \<le> max_write_time st \<and>
     min_read_phase st \<le> max_read_phase st \<and>
     min_read_time st \<le> max_read_time st"
    by (simp add: Let_def)
  with ne v show ?thesis by (simp only: simp_thms)
qed

subsection \<open>The phases of a run\<close>

lemma well_formed_start: "well_formed nprocs align (start nprocs align)"
  by (simp add: well_formed_def start_def barriers_left_def barriers_entered_def)

lemma well_formed_step:
  assumes wf: "well_formed nprocs align ps" and st: "step i ps = Some ps'"
  shows "well_formed nprocs align ps'"
proof -
  from st have i: "i < length ps" by (auto simp: step_def split: if_splits)
  define p where "p = ps ! i"
  from st i obtain c cs where fut: "future p = c # cs"
    by (auto simp: step_def p_def Let_def split: list.splits)
  have len: "length ps = nprocs" using wf by (simp add: well_formed_def)
  have shape: "past (ps ! k) @ future (ps ! k) = main_calls k align"
    and inb: "in_barrier (ps ! k) \<Longrightarrow> \<exists>ds. future (ps ! k) = Call_MPI_Barrier # ds"
    if "k < nprocs" for k using wf that by (auto simp: well_formed_def)
  have ord: "barriers_left (ps ! k) \<le> barriers_entered (ps ! l)" if "k < nprocs" "l < nprocs" for k l
    using wf that by (auto simp: well_formed_def)
  consider (local) "c \<noteq> Call_MPI_Barrier" "ps' = ps[i := advance p c cs]"
    | (enter) "c = Call_MPI_Barrier" "\<not> in_barrier p" "ps' = ps[i := p\<lparr>in_barrier := True\<rparr>]"
    | (leave) "c = Call_MPI_Barrier" "in_barrier p" "ps' = ps[i := advance p c cs]"
        "list_all (\<lambda>q. barriers_entered p \<le> barriers_entered q) ps"
    using st i fut by (auto simp: step_def p_def[symmetric] Let_def split: if_splits)
  then show ?thesis
  proof cases
    case local
    have nb: "\<not> in_barrier p" using inb[of i] i len fut local(1) by (auto simp: p_def)
    have l: "barriers_left (advance p c cs) = barriers_left p"
      using local(1) by (simp add: advance_def barriers_left_def)
    have e: "barriers_entered (advance p c cs) = barriers_entered p"
      using l nb by (simp add: barriers_entered_def advance_def)
    have s: "past (advance p c cs) @ future (advance p c cs) = past p @ future p"
      using fut by (simp add: advance_def)
    show ?thesis
      unfolding well_formed_def
    proof (intro conjI allI impI)
      show "length ps' = nprocs" using local len by simp
    next
      fix k assume "k < nprocs"
      then show "past (ps' ! k) @ future (ps' ! k) = main_calls k align"
        using shape[of k] s local(2) len by (cases "k = i") (simp_all add: p_def)
    next
      fix k assume "k < nprocs" "in_barrier (ps' ! k)"
      then show "\<exists>ds. future (ps' ! k) = Call_MPI_Barrier # ds"
        using inb[of k] local(2) len by (cases "k = i") (simp_all add: advance_def)
    next
      fix k l assume "k < nprocs" "l < nprocs"
      then show "barriers_left (ps' ! k) \<le> barriers_entered (ps' ! l)"
        using ord[of k l] l e local(2) len by (cases "k = i"; cases "l = i"; simp add: p_def)
    qed
  next
    case enter
    let ?p' = "p\<lparr>in_barrier := True\<rparr>"
    have l: "barriers_left ?p' = barriers_left p" by (simp add: barriers_left_def)
    have e: "barriers_entered p \<le> barriers_entered ?p'"
      by (simp add: barriers_entered_def barriers_left_def)
    show ?thesis
      unfolding well_formed_def
    proof (intro conjI allI impI)
      show "length ps' = nprocs" using enter len by simp
    next
      fix k assume "k < nprocs"
      then show "past (ps' ! k) @ future (ps' ! k) = main_calls k align"
        using shape[of k] enter(3) len by (cases "k = i") (simp_all add: p_def)
    next
      fix k assume "k < nprocs" "in_barrier (ps' ! k)"
      then show "\<exists>ds. future (ps' ! k) = Call_MPI_Barrier # ds"
        using inb[of k] enter fut len by (cases "k = i") simp_all
    next
      fix k l assume kl: "k < nprocs" "l < nprocs"
      have "barriers_left (ps' ! k) = barriers_left (ps ! k)"
        using kl l enter(3) len by (cases "k = i") (simp_all add: p_def)
      moreover have "barriers_entered (ps ! l) \<le> barriers_entered (ps' ! l)"
        using kl e enter(3) len by (cases "l = i") (simp_all add: p_def)
      ultimately show "barriers_left (ps' ! k) \<le> barriers_entered (ps' ! l)"
        using ord[of k l] kl by simp
    qed
  next
    case leave
    have l: "barriers_left (advance p c cs) = barriers_entered p"
      using leave(1,2) by (simp add: advance_def barriers_left_def barriers_entered_def)
    have e: "barriers_entered (advance p c cs) = barriers_entered p"
      using l by (simp add: barriers_entered_def advance_def)
    have s: "past (advance p c cs) @ future (advance p c cs) = past p @ future p"
      using fut by (simp add: advance_def)
    have all: "barriers_entered p \<le> barriers_entered (ps ! k)" if "k < nprocs" for k
      using leave(4) that len by (simp add: list_all_length)
    show ?thesis
      unfolding well_formed_def
    proof (intro conjI allI impI)
      show "length ps' = nprocs" using leave len by simp
    next
      fix k assume "k < nprocs"
      then show "past (ps' ! k) @ future (ps' ! k) = main_calls k align"
        using shape[of k] s leave(3) len by (cases "k = i") (simp_all add: p_def)
    next
      fix k assume "k < nprocs" "in_barrier (ps' ! k)"
      then show "\<exists>ds. future (ps' ! k) = Call_MPI_Barrier # ds"
        using inb[of k] leave(3) len by (cases "k = i") (simp_all add: advance_def)
    next
      fix k l assume kl: "k < nprocs" "l < nprocs"
      have el: "barriers_entered (ps' ! l) = barriers_entered (ps ! l)"
        using kl e leave(3) len by (cases "l = i") (simp_all add: p_def)
      show "barriers_left (ps' ! k) \<le> barriers_entered (ps' ! l)"
      proof (cases "k = i")
        case True
        then have "barriers_left (ps' ! k) = barriers_entered p" using l leave(3) i by simp
        then show ?thesis using all[of l] kl el by simp
      next
        case False
        then have "barriers_left (ps' ! k) = barriers_left (ps ! k)" using leave(3) by simp
        then show ?thesis using ord[of k l] kl el by simp
      qed
    qed
  qed
qed

lemma well_formed_run: "well_formed nprocs align ps \<Longrightarrow> well_formed nprocs align (run schedule ps)"
  by (induction schedule arbitrary: ps) (auto split: option.splits intro: well_formed_step)

lemma split_at_barrier:
  assumes "p @ f = A @ b # rest" "b \<notin> set A"
  shows "(b \<notin> set p \<and> (\<exists>us. A = p @ us \<and> f = us @ b # rest))
       \<or> (\<exists>p'. p = A @ b # p' \<and> p' @ f = rest)"
proof -
  from assms(1) consider us where "p = A @ us" "us @ f = b # rest"
    | us where "p @ us = A" "f = us @ b # rest"
    by (auto simp: append_eq_append_conv2)
  then show ?thesis
  proof cases
    case 1
    show ?thesis
    proof (cases us)
      case Nil
      with 1 assms(2) show ?thesis by auto
    next
      case (Cons u us')
      with 1 show ?thesis by auto
    qed
  next
    case 2
    with assms(2) show ?thesis by auto
  qed
qed

lemma started_after_barrier:
  assumes "p @ f = A @ b # rest" "b \<notin> set A" "c \<notin> set A" "c \<noteq> b"
    and "c \<in> set p \<or> (case f of [] \<Rightarrow> False | d # ds \<Rightarrow> d = c)"
  shows "\<exists>p'. p = A @ b # p' \<and> p' @ f = rest
              \<and> (c \<in> set p' \<or> (case f of [] \<Rightarrow> False | d # ds \<Rightarrow> d = c))"
proof -
  from split_at_barrier[OF assms(1,2)] show ?thesis
  proof (elim disjE conjE exE)
    fix us assume np: "b \<notin> set p" and A: "A = p @ us" and f: "f = us @ b # rest"
    have "c \<notin> set p" using A assms(3) by auto
    moreover have "\<not> (case f of [] \<Rightarrow> False | d # ds \<Rightarrow> d = c)"
      using f A assms(3,4) by (cases us) auto
    ultimately show ?thesis using assms(5) by simp
  next
    fix p' assume "p = A @ b # p'" "p' @ f = rest"
    then show ?thesis using assms(3,4,5) by auto
  qed
qed

lemma entered_barrier:
  assumes "p @ f = A @ b # rest" "b \<notin> set A"
    and "Suc n \<le> count_list p b + (if inb then 1 else 0)"
    and "inb \<longrightarrow> (\<exists>ds. f = b # ds)"
  shows "(\<exists>r. p = A @ r) \<and>
         (0 < n \<longrightarrow> (\<exists>p'. p = A @ b # p' \<and> p' @ f = rest
                          \<and> n \<le> count_list p' b + (if inb then 1 else 0)))"
proof -
  from split_at_barrier[OF assms(1,2)] show ?thesis
  proof (elim disjE conjE exE)
    fix us assume np: "b \<notin> set p" and A: "A = p @ us" and f: "f = us @ b # rest"
    have c0: "count_list p b = 0" using np by (simp add: count_list_0_iff)
    with assms(3) have inb: inb and n: "n = 0" by (auto split: if_splits)
    with assms(4) obtain ds where "f = b # ds" by auto
    with f A assms(2) have "us = []" by (cases us) auto
    with A n show ?thesis by simp
  next
    fix p' assume p: "p = A @ b # p'" and r: "p' @ f = rest"
    have "count_list p b = Suc (count_list p' b)"
      using p assms(2) by (simp add: count_list_0_iff)
    with assms(3) p r show ?thesis by auto
  qed
qed

lemma left_after_barrier:
  "b \<notin> set A \<Longrightarrow> count_list (A @ b # p') b = Suc (count_list p' b)"
  by (simp add: count_list_0_iff)

lemma barrier_not_in_parts:
  "Call_MPI_Barrier \<notin> set (before_first_barrier r align)"
  "Call_MPI_Barrier \<notin> set write_phase_calls"
  "Call_MPI_Barrier \<notin> set read_phase_calls"
  by (simp_all add: before_first_barrier_def write_phase_calls_def read_phase_calls_def)

lemma write_test_not_before:
  "Call_write_test \<notin> set (before_first_barrier r align)"
  by (simp add: before_first_barrier_def)

lemma read_test_not_before:
  "Call_read_test \<notin> set (before_first_barrier r align)"
  "Call_read_test \<notin> set write_phase_calls"
  by (simp_all add: before_first_barrier_def write_phase_calls_def)

lemma last_part_not_before:
  assumes "c \<in> {Call_H5Pclose, Call_H5Fopen, Call_H5Fget_filesize, Call_H5Fclose,
                 Call_MPI_Reduce}"
  shows "c \<notin> set (before_first_barrier r align)"
    and "c \<notin> set write_phase_calls"
    and "c \<notin> set read_phase_calls"
    and "c \<noteq> Call_MPI_Barrier"
  using assms
  by (auto simp: before_first_barrier_def write_phase_calls_def read_phase_calls_def)

text \<open>What a process has left tells where it is; what it has entered tells what it has done.\<close>

lemma started_write_left:
  assumes "past p @ future p = main_calls r align" "started Call_write_test p"
  shows "1 \<le> barriers_left p"
proof -
  from started_after_barrier[OF assms(1)[unfolded main_calls_def] barrier_not_in_parts(1)
      write_test_not_before _ assms(2)[unfolded started_def]]
  obtain p' where "past p = before_first_barrier r align @ Call_MPI_Barrier # p'" by auto
  then show ?thesis
    by (simp add: barriers_left_def)
qed

lemma started_read_left:
  assumes "past p @ future p = main_calls r align" "started Call_read_test p"
  shows "2 \<le> barriers_left p"
proof -
  from started_after_barrier[OF assms(1)[unfolded main_calls_def] barrier_not_in_parts(1)
      read_test_not_before(1) _ assms(2)[unfolded started_def]]
  obtain p' where p': "past p = before_first_barrier r align @ Call_MPI_Barrier # p'"
    and r': "p' @ future p = write_phase_calls @ Call_MPI_Barrier #
               read_phase_calls @ Call_MPI_Barrier # after_third_barrier r"
    and s': "Call_read_test \<in> set p' \<or> (case future p of [] \<Rightarrow> False | d # ds \<Rightarrow> d = Call_read_test)"
    by auto
  from started_after_barrier[OF r' barrier_not_in_parts(2) read_test_not_before(2) _ s']
  obtain p'' where "p' = write_phase_calls @ Call_MPI_Barrier # p''" by auto
  with p' show ?thesis
    by (simp add: barriers_left_def)
qed

lemma started_last_left:
  assumes "past p @ future p = main_calls r align" "started c p"
    and c: "c \<in> {Call_H5Pclose, Call_H5Fopen, Call_H5Fget_filesize, Call_H5Fclose,
                    Call_MPI_Reduce}"
  shows "3 \<le> barriers_left p"
proof -
  note nb = last_part_not_before[OF c]
  from started_after_barrier[OF assms(1)[unfolded main_calls_def] barrier_not_in_parts(1)
      nb(1) nb(4) assms(2)[unfolded started_def]]
  obtain p1 where p1: "past p = before_first_barrier r align @ Call_MPI_Barrier # p1"
    and r1: "p1 @ future p = write_phase_calls @ Call_MPI_Barrier #
               read_phase_calls @ Call_MPI_Barrier # after_third_barrier r"
    and s1: "c \<in> set p1 \<or> (case future p of [] \<Rightarrow> False | d # ds \<Rightarrow> d = c)"
    by auto
  from started_after_barrier[OF r1 barrier_not_in_parts(2) nb(2) nb(4) s1]
  obtain p2 where p2: "p1 = write_phase_calls @ Call_MPI_Barrier # p2"
    and r2: "p2 @ future p = read_phase_calls @ Call_MPI_Barrier # after_third_barrier r"
    and s2: "c \<in> set p2 \<or> (case future p of [] \<Rightarrow> False | d # ds \<Rightarrow> d = c)"
    by auto
  from started_after_barrier[OF r2 barrier_not_in_parts(3) nb(3) nb(4) s2]
  obtain p3 where "p2 = read_phase_calls @ Call_MPI_Barrier # p3" by auto
  with p1 p2 show ?thesis
    by (simp add: barriers_left_def)
qed

lemma entered_first:
  assumes "past p @ future p = main_calls r align"
    and "in_barrier p \<longrightarrow> (\<exists>ds. future p = Call_MPI_Barrier # ds)"
    and "1 \<le> barriers_entered p"
  shows "\<exists>q. past p = before_first_barrier r align @ q"
  using entered_barrier[OF assms(1)[unfolded main_calls_def] barrier_not_in_parts(1), of 0 "in_barrier p"]
    assms(2,3) by (simp add: barriers_entered_def barriers_left_def)

lemma entered_second:
  assumes "past p @ future p = main_calls r align"
    and "in_barrier p \<longrightarrow> (\<exists>ds. future p = Call_MPI_Barrier # ds)"
    and "2 \<le> barriers_entered p"
  shows "\<exists>q. past p = before_first_barrier r align @ Call_MPI_Barrier # write_phase_calls @ q"
proof -
  from entered_barrier[OF assms(1)[unfolded main_calls_def] barrier_not_in_parts(1), of 1 "in_barrier p"]
    assms(2,3)
  obtain p' where p': "past p = before_first_barrier r align @ Call_MPI_Barrier # p'"
    and r': "p' @ future p = write_phase_calls @ Call_MPI_Barrier #
               read_phase_calls @ Call_MPI_Barrier # after_third_barrier r"
    and n': "1 \<le> count_list p' Call_MPI_Barrier + (if in_barrier p then 1 else 0)"
    by (auto simp: barriers_entered_def barriers_left_def)
  from entered_barrier[OF r' barrier_not_in_parts(2), of 0 "in_barrier p"] n' assms(2)
  obtain q where "p' = write_phase_calls @ q" by auto
  with p' show ?thesis by simp
qed

lemma entered_third:
  assumes "past p @ future p = main_calls r align"
    and "in_barrier p \<longrightarrow> (\<exists>ds. future p = Call_MPI_Barrier # ds)"
    and "3 \<le> barriers_entered p"
  shows "\<exists>q. past p = before_first_barrier r align @ Call_MPI_Barrier # write_phase_calls @
                 Call_MPI_Barrier # read_phase_calls @ q"
proof -
  from entered_barrier[OF assms(1)[unfolded main_calls_def] barrier_not_in_parts(1), of 2 "in_barrier p"]
    assms(2,3)
  obtain p' where p': "past p = before_first_barrier r align @ Call_MPI_Barrier # p'"
    and r': "p' @ future p = write_phase_calls @ Call_MPI_Barrier #
               read_phase_calls @ Call_MPI_Barrier # after_third_barrier r"
    and n': "2 \<le> count_list p' Call_MPI_Barrier + (if in_barrier p then 1 else 0)"
    by (auto simp: barriers_entered_def barriers_left_def)
  from entered_barrier[OF r' barrier_not_in_parts(2), of 1 "in_barrier p"] n' assms(2)
  obtain p'' where p'': "p' = write_phase_calls @ Call_MPI_Barrier # p''"
    and r'': "p'' @ future p = read_phase_calls @ Call_MPI_Barrier # after_third_barrier r"
    and n'': "1 \<le> count_list p'' Call_MPI_Barrier + (if in_barrier p then 1 else 0)"
    by auto
  from entered_barrier[OF r'' barrier_not_in_parts(3), of 0 "in_barrier p"] n'' assms(2)
  obtain q where "p'' = read_phase_calls @ q" by auto
  with p' p'' show ?thesis by simp
qed

lemma working_entered:
  assumes "in_barrier p \<longrightarrow> (\<exists>ds. future p = Call_MPI_Barrier # ds)"
    and "current_phase p = Some k"
  shows "barriers_left p = k \<and> barriers_entered p = k"
  using assms by (auto simp: current_phase_def barriers_entered_def split: list.splits if_splits)

text \<open>
  C7. In every interleaving of the processes of a run, each process makes its calls
  in program order (broadcast and set-up, barrier, write phase, barrier, read phase,
  barrier, file-size query and reductions), and no process has left a barrier that
  some process has not entered. So when any process has started \<^verbatim>\<open>write_test\<close>,
  every process has finished the broadcast and the set-up; when any process has
  started \<^verbatim>\<open>read_test\<close>, every process has finished its whole write phase; when
  any process has started to close the property lists, to query the file size or to
  reduce (the calls after the third barrier), every process has finished its whole
  read phase; and two processes at work are in the same phase.
\<close>

theorem phases_in_global_order:
  assumes "i < nprocs" "j < nprocs"
  shows "let ps = run schedule (start nprocs align) in
      past (ps ! i) @ future (ps ! i) = main_calls i align
    \<and> barriers_left (ps ! i) \<le> barriers_entered (ps ! j)
    \<and> (started Call_write_test (ps ! i) \<longrightarrow>
         finished Call_MPI_Bcast (ps ! j)
         \<and> (\<exists>q. past (ps ! j) = before_first_barrier j align @ q))
    \<and> (started Call_read_test (ps ! i) \<longrightarrow>
         finished Call_write_test (ps ! j)
         \<and> (\<exists>q. past (ps ! j) =
               before_first_barrier j align @ Call_MPI_Barrier # write_phase_calls @ q))
    \<and> (\<forall>c \<in> {Call_H5Pclose, Call_H5Fopen, Call_H5Fget_filesize, Call_H5Fclose,
              Call_MPI_Reduce}.
         started c (ps ! i) \<longrightarrow>
         finished Call_read_test (ps ! j)
         \<and> (\<exists>q. past (ps ! j) =
               before_first_barrier j align @ Call_MPI_Barrier # write_phase_calls @
               Call_MPI_Barrier # read_phase_calls @ q))
    \<and> (\<forall>k l. current_phase (ps ! i) = Some k \<and> current_phase (ps ! j) = Some l \<longrightarrow> k = l)"
proof -
  define ps where "ps = run schedule (start nprocs align)"
  have wf: "well_formed nprocs align ps"
    unfolding ps_def by (rule well_formed_run[OF well_formed_start])
  have shape: "past (ps ! k) @ future (ps ! k) = main_calls k align"
    and inb: "in_barrier (ps ! k) \<longrightarrow> (\<exists>ds. future (ps ! k) = Call_MPI_Barrier # ds)"
    if "k < nprocs" for k using wf that by (auto simp: well_formed_def)
  have ord: "barriers_left (ps ! k) \<le> barriers_entered (ps ! l)" if "k < nprocs" "l < nprocs" for k l
    using wf that by (auto simp: well_formed_def)
  have w: "\<exists>q. past (ps ! j) = before_first_barrier j align @ q"
    if "started Call_write_test (ps ! i)"
    using started_write_left[OF shape[OF assms(1)] that] ord[OF assms]
    by (intro entered_first[OF shape[OF assms(2)] inb[OF assms(2)]]) simp
  have r: "\<exists>q. past (ps ! j) =
               before_first_barrier j align @ Call_MPI_Barrier # write_phase_calls @ q"
    if "started Call_read_test (ps ! i)"
    using started_read_left[OF shape[OF assms(1)] that] ord[OF assms]
    by (intro entered_second[OF shape[OF assms(2)] inb[OF assms(2)]]) simp
  have c: "\<exists>q. past (ps ! j) =
               before_first_barrier j align @ Call_MPI_Barrier # write_phase_calls @
               Call_MPI_Barrier # read_phase_calls @ q"
    if "started c (ps ! i)"
      and "c \<in> {Call_H5Pclose, Call_H5Fopen, Call_H5Fget_filesize, Call_H5Fclose,
                  Call_MPI_Reduce}" for c
    using started_last_left[OF shape[OF assms(1)] that] ord[OF assms]
    by (intro entered_third[OF shape[OF assms(2)] inb[OF assms(2)]]) simp
  have ph: "k = l" if "current_phase (ps ! i) = Some k" "current_phase (ps ! j) = Some l" for k l
    using working_entered[OF inb[OF assms(1)] that(1)] working_entered[OF inb[OF assms(2)] that(2)]
      ord[OF assms] ord[OF assms(2,1)] by simp
  have fw: "finished Call_MPI_Bcast (ps ! j)" if "started Call_write_test (ps ! i)"
    using w[OF that] by (auto simp: finished_def before_first_barrier_def)
  have fr: "finished Call_write_test (ps ! j)" if "started Call_read_test (ps ! i)"
    using r[OF that] by (auto simp: finished_def write_phase_calls_def)
  have fc: "finished Call_read_test (ps ! j)"
    if "started c (ps ! i)"
      and "c \<in> {Call_H5Pclose, Call_H5Fopen, Call_H5Fget_filesize, Call_H5Fclose,
                  Call_MPI_Reduce}" for c
    using c[OF that] by (auto simp: finished_def read_phase_calls_def)
  show ?thesis
    unfolding Let_def ps_def[symmetric]
    using shape[OF assms(1)] ord[OF assms] w r c ph fw fr fc by blast
qed

text \<open>
  In the schedule \<open>read_begins\<close> process 0 is about to call \<^verbatim>\<open>read_test\<close>, and
  process 1 has made all the calls of its write phase. Alone, process 0 never gets
  past the first barrier.
\<close>

theorem phases_in_global_order_witness:
  "(0::nat) < 2 \<and> (1::nat) < 2 \<and>
   started Call_read_test (run read_begins (start 2 False) ! 0) \<and>
   finished Call_write_test (run read_begins (start 2 False) ! 1) \<and>
   (\<exists>q. past (run read_begins (start 2 False) ! 1) =
         before_first_barrier 1 False @ Call_MPI_Barrier # write_phase_calls @ q) \<and>
   \<not> started Call_write_test (run (replicate 40 0) (start 2 False) ! 0) \<and>
   main_calls 1 False =
     [Call_MPI_Init, Call_MPI_Comm_size, Call_MPI_Comm_rank, Call_MPI_Wtime,
      Call_MPI_Bcast, Call_H5Pcreate, Call_H5Pset_dxpl_mpio, Call_H5Pcreate,
      Call_H5Pset_fapl_mpio, Call_set_libver_bounds,
      Call_MPI_Barrier, Call_MPI_Wtime, Call_write_test, Call_MPI_Wtime,
      Call_MPI_Barrier, Call_MPI_Wtime, Call_read_test, Call_MPI_Wtime,
      Call_MPI_Barrier, Call_H5Pclose, Call_H5Pclose, Call_MPI_Wtime,
      Call_MPI_Reduce, Call_MPI_Reduce, Call_MPI_Reduce, Call_MPI_Reduce, Call_MPI_Reduce,
      Call_MPI_Reduce, Call_MPI_Reduce, Call_MPI_Reduce, Call_MPI_Reduce, Call_MPI_Reduce,
      Call_MPI_Finalize]"
proof -
  have ev: "run read_begins (start 2 False) =
    [\<lparr> past = before_first_barrier 0 False @ Call_MPI_Barrier # write_phase_calls @
               [Call_MPI_Barrier, Call_MPI_Wtime],
       future = Call_read_test # Call_MPI_Wtime # Call_MPI_Barrier # after_third_barrier 0,
       in_barrier = False \<rparr>,
     \<lparr> past = before_first_barrier 1 False @ Call_MPI_Barrier # write_phase_calls,
       future = Call_MPI_Barrier # read_phase_calls @ Call_MPI_Barrier # after_third_barrier 1,
       in_barrier = True \<rparr>]"
    by code_simp
  have s: "started Call_read_test (run read_begins (start 2 False) ! 0)"
    unfolding ev by (simp add: started_def)
  have alone: "run (replicate 40 0) (start 2 False) ! 0 =
     \<lparr> past = before_first_barrier 0 False,
       future = Call_MPI_Barrier # write_phase_calls @ Call_MPI_Barrier #
                read_phase_calls @ Call_MPI_Barrier # after_third_barrier 0,
       in_barrier = True \<rparr>"
    by code_simp
  have n: "\<not> started Call_write_test (run (replicate 40 0) (start 2 False) ! 0)"
    unfolding alone by (simp add: started_def before_first_barrier_def)
  have m: "main_calls 1 False =
     [Call_MPI_Init, Call_MPI_Comm_size, Call_MPI_Comm_rank, Call_MPI_Wtime,
      Call_MPI_Bcast, Call_H5Pcreate, Call_H5Pset_dxpl_mpio, Call_H5Pcreate,
      Call_H5Pset_fapl_mpio, Call_set_libver_bounds,
      Call_MPI_Barrier, Call_MPI_Wtime, Call_write_test, Call_MPI_Wtime,
      Call_MPI_Barrier, Call_MPI_Wtime, Call_read_test, Call_MPI_Wtime,
      Call_MPI_Barrier, Call_H5Pclose, Call_H5Pclose, Call_MPI_Wtime,
      Call_MPI_Reduce, Call_MPI_Reduce, Call_MPI_Reduce, Call_MPI_Reduce, Call_MPI_Reduce,
      Call_MPI_Reduce, Call_MPI_Reduce, Call_MPI_Reduce, Call_MPI_Reduce, Call_MPI_Reduce,
      Call_MPI_Finalize]"
    by code_simp
  from phases_in_global_order[of 0 2 1 read_begins False] s
  have "finished Call_write_test (run read_begins (start 2 False) ! 1) \<and>
   (\<exists>q. past (run read_begins (start 2 False) ! 1) =
         before_first_barrier 1 False @ Call_MPI_Barrier # write_phase_calls @ q)"
    by (simp add: Let_def)
  with s n m show ?thesis by simp
qed

subsection \<open>Mode selection after the broadcast\<close>

text \<open>
  C9. The two comparisons that select the modes look at no more than the first 16
  characters and fall back: a scaling string other than "strong" gives the
  weak-scaling extents (the global rows and columns), an mpi\_io string other than
  "collective" gives the independent transfer mode. Neither computation has a branch
  that rejects a string.
\<close>

theorem mode_selection_fallbacks:
  "strong_scaling_flg config = (take 16 (scaling config) = take 16 ''strong'')
   \<and> coll_mpi_io_flg config = (take 16 (mpi_io config) = take 16 ''collective'')
   \<and> (scaling config \<noteq> ''strong'' \<longrightarrow>
        my_rows config = Inr (rows config) \<and> my_cols config = Inr (cols config))
   \<and> (mpi_io config \<noteq> ''collective'' \<longrightarrow> dxpl_mpio config = H5FD_MPIO_INDEPENDENT)
   \<and> (scaling config = ''strong'' \<longleftrightarrow> strong_scaling_flg config)
   \<and> (mpi_io config = ''collective'' \<longleftrightarrow> dxpl_mpio config = H5FD_MPIO_COLLECTIVE)"
proof (intro conjI)
  show "strong_scaling_flg config = (take 16 (scaling config) = take 16 ''strong'')"
    by (simp only: strong_scaling_flg_def strncmp_eq_0_iff)
  show "coll_mpi_io_flg config = (take 16 (mpi_io config) = take 16 ''collective'')"
    by (simp only: coll_mpi_io_flg_def strncmp_eq_0_iff)
qed (simp_all add: strong_scaling_flg_iff coll_mpi_io_flg_iff my_rows_def my_cols_def dxpl_mpio_def)

text \<open>
  The strings "Strong" and "coll" are not recognised and not rejected: the process
  gets the weak-scaling extent 20 by 20 and the independent transfer mode.
\<close>

theorem mode_selection_fallbacks_witness:
  "scaling (strong_2x2\<lparr>scaling := ''Strong'', mpi_io := ''coll''\<rparr>) \<noteq> ''strong''
   \<and> mpi_io (strong_2x2\<lparr>scaling := ''Strong'', mpi_io := ''coll''\<rparr>) \<noteq> ''collective''
   \<and> my_rows (strong_2x2\<lparr>scaling := ''Strong'', mpi_io := ''coll''\<rparr>) = Inr 20
   \<and> my_cols (strong_2x2\<lparr>scaling := ''Strong'', mpi_io := ''coll''\<rparr>) = Inr 20
   \<and> dxpl_mpio (strong_2x2\<lparr>scaling := ''Strong'', mpi_io := ''coll''\<rparr>) = H5FD_MPIO_INDEPENDENT"
  using mode_selection_fallbacks[of "strong_2x2\<lparr>scaling := ''Strong'', mpi_io := ''coll''\<rparr>"]
  by (simp add: strong_2x2_def)

subsection \<open>Library version bounds\<close>

text \<open>
  With a library 1.8 to 1.13, a named bound resolves to the older of the named format
  and the latest format of the library; "earliest" as the low bound is EARLIEST, and
  every other string is LATEST.
\<close>

lemma libver_values:
  assumes "majnum lib = 1" "8 \<le> minnum lib" "minnum lib \<le> 13"
  shows "libver_value (low_bound lib pconfig) =
     (if libver_bound_low pconfig = ''earliest'' then 0
      else if libver_bound_low pconfig = ''v18'' then 1
      else if libver_bound_low pconfig = ''v110''
        then min 2 (libver_value (H5F_LIBVER_LATEST lib))
      else if libver_bound_low pconfig = ''v112''
        then min 3 (libver_value (H5F_LIBVER_LATEST lib))
      else libver_value (H5F_LIBVER_LATEST lib))"
    and "libver_value (high_bound lib pconfig) =
     (if libver_bound_high pconfig = ''v18'' then 1
      else if libver_bound_high pconfig = ''v110''
        then min 2 (libver_value (H5F_LIBVER_LATEST lib))
      else if libver_bound_high pconfig = ''v112''
        then min 3 (libver_value (H5F_LIBVER_LATEST lib))
      else libver_value (H5F_LIBVER_LATEST lib))"
    and "libver_value (H5F_LIBVER_LATEST lib) =
     (if minnum lib < 10 then 1 else if minnum lib < 12 then 2
      else if minnum lib < 13 then 3 else 4)"
  using assms
  by (auto simp: low_bound_def high_bound_def strncmp_literal H5F_LIBVER_LATEST_def
      H5_VERSION_GE_def)

lemma libver_fails_iff:
  assumes "majnum lib = 1" "8 \<le> minnum lib" "minnum lib \<le> 13"
  shows "\<not> libver_value (low_bound lib pconfig) \<le> libver_value (high_bound lib pconfig)
    \<longleftrightarrow>
     (libver_bound_high pconfig = ''v18'' \<and> 10 \<le> minnum lib
        \<and> libver_bound_low pconfig \<notin> {''earliest'', ''v18''})
   \<or> (libver_bound_high pconfig = ''v110'' \<and> 12 \<le> minnum lib
        \<and> libver_bound_low pconfig \<notin> {''earliest'', ''v18'', ''v110''})
   \<or> (libver_bound_high pconfig = ''v112'' \<and> 13 \<le> minnum lib
        \<and> libver_bound_low pconfig \<notin> {''earliest'', ''v18'', ''v110'', ''v112''})"
  unfolding libver_values[OF assms]
  using assms(2,3) by (auto simp: min_def)

lemma set_libver_bounds_fails_iff:
  assumes "0 \<le> H5get_libversion lib" "majnum lib = 1" "8 \<le> minnum lib" "minnum lib \<le> 13"
  shows "set_libver_bounds lib pconfig = Inl (Assertion_failed ''low <= high'')
    \<longleftrightarrow>
     (libver_bound_high pconfig = ''v18'' \<and> 10 \<le> minnum lib
        \<and> libver_bound_low pconfig \<notin> {''earliest'', ''v18''})
   \<or> (libver_bound_high pconfig = ''v110'' \<and> 12 \<le> minnum lib
        \<and> libver_bound_low pconfig \<notin> {''earliest'', ''v18'', ''v110''})
   \<or> (libver_bound_high pconfig = ''v112'' \<and> 13 \<le> minnum lib
        \<and> libver_bound_low pconfig \<notin> {''earliest'', ''v18'', ''v110'', ''v112''})"
proof -
  have "set_libver_bounds lib pconfig = Inl (Assertion_failed ''low <= high'')
    \<longleftrightarrow> \<not> libver_value (low_bound lib pconfig) \<le> libver_value (high_bound lib pconfig)"
    using assms by (simp add: set_libver_bounds_def Let_def)
  then show ?thesis
    unfolding libver_fails_iff[OF assms(2,3,4)] .
qed

text \<open>
  C10, as stated: for arbitrary bound strings the assertion \<^verbatim>\<open>low <= high\<close> never
  fails, also when an unrecognised low-bound string falls back to LATEST while the
  high-bound string names a version. With HDF5 1.10.7, the low string "bogus" and
  the high string "v18", the low bound is LATEST (V110) and the high bound V18, and
  the assertion fails.
\<close>

theorem libver_assertion_counterexample:
  "set_libver_bounds hdf5_1_10_7
     (strong_2x2\<lparr>libver_bound_low := ''bogus'', libver_bound_high := ''v18''\<rparr>)
     = Inl (Assertion_failed ''low <= high'')"
  by (simp add: set_libver_bounds_def low_bound_def high_bound_def strncmp_literal
      H5_VERSION_GE_def H5F_LIBVER_LATEST_def hdf5_1_10_7_def strong_2x2_def)

text \<open>
  C10, amended. With a library 1.8 to 1.13 that reports its version, the assertion
  \<^verbatim>\<open>low <= high\<close> of \<^verbatim>\<open>set_libver_bounds\<close> fails in these cases and in no other: the
  high string is "v18", the library is 1.10 or later and the low string is neither
  "earliest" nor "v18"; the high string is "v110", the library is 1.12 or later and
  the low string is none of "earliest", "v18", "v110"; the high string is "v112", the
  library is 1.13 and the low string is none of "earliest", "v18", "v110", "v112".
  So the assertion holds for every pair of names in order, for every high string
  that names no version, and on every library 1.8 or 1.9; it fails when an
  unrecognised low string falls back to LATEST while the high string names a format
  older than the latest one of the library. Where it holds, the bounds passed to
  \<^verbatim>\<open>H5Pset_libver_bounds\<close> are the resolved ones and are in order: a named bound
  resolves to the older of the named format and the latest format of the library.
\<close>

theorem libver_assertion:
  assumes "0 \<le> H5get_libversion lib" "majnum lib = 1" "8 \<le> minnum lib" "minnum lib \<le> 13"
  shows "let fails =
       ((libver_bound_high pconfig = ''v18'' \<and> 10 \<le> minnum lib
           \<and> libver_bound_low pconfig \<notin> {''earliest'', ''v18''})
        \<or> (libver_bound_high pconfig = ''v110'' \<and> 12 \<le> minnum lib
           \<and> libver_bound_low pconfig \<notin> {''earliest'', ''v18'', ''v110''})
        \<or> (libver_bound_high pconfig = ''v112'' \<and> 13 \<le> minnum lib
           \<and> libver_bound_low pconfig \<notin> {''earliest'', ''v18'', ''v110'', ''v112''}));
       latest = libver_value (H5F_LIBVER_LATEST lib)
     in
       (set_libver_bounds lib pconfig = Inl (Assertion_failed ''low <= high'') \<longleftrightarrow> fails)
     \<and> (\<not> fails \<and> 0 \<le> H5Pset_libver_bounds lib \<longrightarrow>
          set_libver_bounds lib pconfig =
            Inr (H5Pset_libver_bounds lib, low_bound lib pconfig, high_bound lib pconfig)
          \<and> libver_value (low_bound lib pconfig) \<le> libver_value (high_bound lib pconfig))
     \<and> libver_value (low_bound lib pconfig) =
          (if libver_bound_low pconfig = ''earliest'' then 0
           else if libver_bound_low pconfig = ''v18'' then 1
           else if libver_bound_low pconfig = ''v110'' then min 2 latest
           else if libver_bound_low pconfig = ''v112'' then min 3 latest
           else latest)
     \<and> libver_value (high_bound lib pconfig) =
          (if libver_bound_high pconfig = ''v18'' then 1
           else if libver_bound_high pconfig = ''v110'' then min 2 latest
           else if libver_bound_high pconfig = ''v112'' then min 3 latest
           else latest)"
proof -
  note f = set_libver_bounds_fails_iff[OF assms, of pconfig]
  note g = libver_fails_iff[OF assms(2,3,4), of pconfig]
  have ok: "set_libver_bounds lib pconfig =
            Inr (H5Pset_libver_bounds lib, low_bound lib pconfig, high_bound lib pconfig)"
    if "libver_value (low_bound lib pconfig) \<le> libver_value (high_bound lib pconfig)"
      and "0 \<le> H5Pset_libver_bounds lib"
    using that assms by (simp add: set_libver_bounds_def Let_def)
  show ?thesis
    unfolding Let_def
    using f g ok libver_values(1,2)[OF assms(2,3,4), of pconfig]
    by (intro conjI impI) (simp_all only: simp_thms not_not)
qed

text \<open>
  The names "v18" and "v110" in order pass on 1.10.7 and the bounds are set; "latest"
  as the low string (which the low chain does not know) with "v18" fails there;
  "bogus" with "v110" fails on 1.12.1; "v112" with "v18" holds on 1.8.22, where both
  resolve to the latest format of that library.
\<close>

theorem libver_assertion_witness:
  "0 \<le> H5get_libversion hdf5_1_10_7
   \<and> majnum hdf5_1_10_7 = 1 \<and> 8 \<le> minnum hdf5_1_10_7 \<and> minnum hdf5_1_10_7 \<le> 13
   \<and> set_libver_bounds hdf5_1_10_7
        (strong_2x2\<lparr>libver_bound_low := ''v18'', libver_bound_high := ''v110''\<rparr>)
       = Inr (0, H5F_LIBVER_V18, H5F_LIBVER_V110)
   \<and> set_libver_bounds hdf5_1_10_7
        (strong_2x2\<lparr>libver_bound_low := ''latest'', libver_bound_high := ''v18''\<rparr>)
       = Inl (Assertion_failed ''low <= high'')
   \<and> set_libver_bounds hdf5_1_12_1
        (strong_2x2\<lparr>libver_bound_low := ''bogus'', libver_bound_high := ''v110''\<rparr>)
       = Inl (Assertion_failed ''low <= high'')
   \<and> set_libver_bounds hdf5_1_8_22
        (strong_2x2\<lparr>libver_bound_low := ''v112'', libver_bound_high := ''v18''\<rparr>)
       = Inr (0, H5F_LIBVER_V18, H5F_LIBVER_V18)"
proof -
  have v10: "0 \<le> H5get_libversion hdf5_1_10_7"
    "majnum hdf5_1_10_7 = 1" "8 \<le> minnum hdf5_1_10_7" "minnum hdf5_1_10_7 \<le> 13"
    by (simp_all add: hdf5_1_10_7_def)
  have v12: "0 \<le> H5get_libversion hdf5_1_12_1"
    "majnum hdf5_1_12_1 = 1" "8 \<le> minnum hdf5_1_12_1" "minnum hdf5_1_12_1 \<le> 13"
    by (simp_all add: hdf5_1_12_1_def)
  have v8: "0 \<le> H5get_libversion hdf5_1_8_22"
    "majnum hdf5_1_8_22 = 1" "8 \<le> minnum hdf5_1_8_22" "minnum hdf5_1_8_22 \<le> 13"
    by (simp_all add: hdf5_1_8_22_def)
  have b10: "low_bound hdf5_1_10_7
          (strong_2x2\<lparr>libver_bound_low := ''v18'', libver_bound_high := ''v110''\<rparr>)
        = H5F_LIBVER_V18"
    "high_bound hdf5_1_10_7
          (strong_2x2\<lparr>libver_bound_low := ''v18'', libver_bound_high := ''v110''\<rparr>)
        = H5F_LIBVER_V110"
    by (simp_all add: low_bound_def high_bound_def strncmp_literal H5_VERSION_GE_def
        H5F_LIBVER_LATEST_def hdf5_1_10_7_def strong_2x2_def)
  have b8: "low_bound hdf5_1_8_22
          (strong_2x2\<lparr>libver_bound_low := ''v112'', libver_bound_high := ''v18''\<rparr>)
        = H5F_LIBVER_V18"
    "high_bound hdf5_1_8_22
          (strong_2x2\<lparr>libver_bound_low := ''v112'', libver_bound_high := ''v18''\<rparr>)
        = H5F_LIBVER_V18"
    by (simp_all add: low_bound_def high_bound_def strncmp_literal H5_VERSION_GE_def
        H5F_LIBVER_LATEST_def hdf5_1_8_22_def strong_2x2_def)
  have a: "set_libver_bounds hdf5_1_10_7
        (strong_2x2\<lparr>libver_bound_low := ''v18'', libver_bound_high := ''v110''\<rparr>)
       = Inr (0, H5F_LIBVER_V18, H5F_LIBVER_V110)"
    using libver_assertion[OF v10,
        of "strong_2x2\<lparr>libver_bound_low := ''v18'', libver_bound_high := ''v110''\<rparr>"]
    by (simp add: Let_def b10) (simp add: hdf5_1_10_7_def strong_2x2_def)
  have b: "set_libver_bounds hdf5_1_10_7
        (strong_2x2\<lparr>libver_bound_low := ''latest'', libver_bound_high := ''v18''\<rparr>)
       = Inl (Assertion_failed ''low <= high'')"
    using libver_assertion[OF v10,
        of "strong_2x2\<lparr>libver_bound_low := ''latest'', libver_bound_high := ''v18''\<rparr>"]
    by (simp add: Let_def) (simp add: hdf5_1_10_7_def strong_2x2_def)
  have c: "set_libver_bounds hdf5_1_12_1
        (strong_2x2\<lparr>libver_bound_low := ''bogus'', libver_bound_high := ''v110''\<rparr>)
       = Inl (Assertion_failed ''low <= high'')"
    using libver_assertion[OF v12,
        of "strong_2x2\<lparr>libver_bound_low := ''bogus'', libver_bound_high := ''v110''\<rparr>"]
    by (simp add: Let_def) (simp add: hdf5_1_12_1_def strong_2x2_def)
  have d: "set_libver_bounds hdf5_1_8_22
        (strong_2x2\<lparr>libver_bound_low := ''v112'', libver_bound_high := ''v18''\<rparr>)
       = Inr (0, H5F_LIBVER_V18, H5F_LIBVER_V18)"
    using libver_assertion[OF v8,
        of "strong_2x2\<lparr>libver_bound_low := ''v112'', libver_bound_high := ''v18''\<rparr>"]
    by (simp add: Let_def b8) (simp add: hdf5_1_8_22_def strong_2x2_def)
  from v10 a b c d show ?thesis by simp
qed

subsection \<open>Configuration errors\<close>







end
